theory Spec2Isabelle
  imports Main
begin

section \<open>Workbench application template: constants and configuration\<close>

text \<open>
  The embedding follows \<^verbatim>\<open>Workbench/__init__.py\<close>. Python strings are \<open>string\<close>
  (the only character the program inspects, the space, is one byte in UTF-8), Python
  integers are \<open>int\<close>.
\<close>

datatype asset_code = Prp | Chr | Res

text \<open>\<^verbatim>\<open>TYPE_ITEMS\<close>: identifier, display label, description, icon, number.\<close>

definition TYPE_ITEMS :: "(string \<times> string \<times> string \<times> string \<times> nat) list" where
  "TYPE_ITEMS =
     [(''prp'', ''Prop (prp)'', ''Standard Prop Asset'', ''OBJECT_DATAMODE'', 0),
      (''chr'', ''Character (chr)'', ''Character/Rig Asset'', ''OUTLINER_OB_ARMATURE'', 1),
      (''res'', ''Resource (res)'', ''General Resource or Environment'', ''WORLD'', 2)]"

fun item_number :: "asset_code \<Rightarrow> nat" where
  "item_number Prp = 0"
| "item_number Chr = 1"
| "item_number Res = 2"

text \<open>
  Reading an \<^verbatim>\<open>EnumProperty\<close> in Python gives the identifier (first component) of
  the selected item; the second component is what the interface displays.
\<close>

definition enum_identifier :: "asset_code \<Rightarrow> string" where
  "enum_identifier t = fst (TYPE_ITEMS ! item_number t)"

definition display_label :: "asset_code \<Rightarrow> string" where
  "display_label t = fst (snd (TYPE_ITEMS ! item_number t))"

text \<open>\<^verbatim>\<open>class StudioProjectProps(bpy.types.PropertyGroup)\<close>\<close>

record StudioProjectProps =
  base_path :: string
  asset_type :: asset_code
  asset_name :: string
  version :: int
  is_generated :: bool

definition default_props :: StudioProjectProps where
  "default_props =
     \<lparr>base_path = ''//'', asset_type = Prp, asset_name = ''New_Asset'',
      version = 1, is_generated = False\<rparr>"

section \<open>Python string operations used by the path utilities\<close>

text \<open>
  \<^verbatim>\<open>str.replace(old, new)\<close>: scan from the left, replacing each non-overlapping
  occurrence of \<open>old\<close>. For an empty \<open>old\<close> Python inserts \<open>new\<close> before every
  character and at the end.
\<close>

function str_replace :: "string \<Rightarrow> string \<Rightarrow> string \<Rightarrow> string" where
  "str_replace old new s =
     (if old = [] then concat (map (\<lambda>c. new @ [c]) s) @ new
      else if s = [] then []
      else if take (length old) s = old
        then new @ str_replace old new (drop (length old) s)
      else hd s # str_replace old new (tl s))"
  by pat_completeness auto
termination
  by (relation "measure (\<lambda>(old, new, s). length s)") auto

declare str_replace.simps [simp del]

text \<open>Decimal digits of a natural number, most significant first (\<^verbatim>\<open>str(n)\<close>).\<close>

definition digit_char :: "nat \<Rightarrow> char" where
  "digit_char d = ''0123456789'' ! d"

fun dec :: "nat \<Rightarrow> string" where
  "dec n = (if n < 10 then [digit_char n] else dec (n div 10) @ [digit_char (n mod 10)])"

declare dec.simps [simp del]

text \<open>
  The format specification \<^verbatim>\<open>02d\<close>: sign-aware zero padding to width 2. A negative
  number already fills the width with its sign and one digit.
\<close>

definition format_02d :: "int \<Rightarrow> string" where
  "format_02d n =
     (if n < 0 then CHR ''-'' # dec (nat (- n))
      else replicate (2 - length (dec (nat n))) CHR ''0'' @ dec (nat n))"

text \<open>Reading a formatted number back: used to show that the format loses nothing.\<close>

definition undec :: "string \<Rightarrow> nat" where
  "undec s = foldl (\<lambda>a c. 10 * a + (of_char c - 48)) 0 s"

definition parse_02d :: "string \<Rightarrow> int" where
  "parse_02d s = (if take 1 s = ''-'' then - int (undec (drop 1 s)) else int (undec s))"

text \<open>
  \<^verbatim>\<open>os.path.join\<close> of \<^verbatim>\<open>posixpath\<close>: a component that starts with the separator
  discards what came before; otherwise it is appended, after a separator unless the
  path so far is empty or ends with one.
\<close>

definition join2 :: "string \<Rightarrow> string \<Rightarrow> string" where
  "join2 path b =
     (if take 1 b = ''/'' then b
      else if path = [] \<or> last path = CHR ''/'' then path @ b
      else path @ ''/'' @ b)"

definition os_path_join :: "string \<Rightarrow> string list \<Rightarrow> string" where
  "os_path_join a p = foldl join2 a p"

text \<open>
  \<^verbatim>\<open>os.path.dirname\<close> of \<^verbatim>\<open>posixpath\<close>: everything up to and including the last
  separator, with trailing separators stripped unless nothing else is left.
\<close>

fun rstrip_sep :: "string \<Rightarrow> string" where
  "rstrip_sep s = rev (dropWhile (\<lambda>c. c = CHR ''/'') (rev s))"

definition os_path_dirname :: "string \<Rightarrow> string" where
  "os_path_dirname p =
     (let head = rev (dropWhile (\<lambda>c. c \<noteq> CHR ''/'') (rev p))
      in if head \<noteq> [] \<and> set head \<noteq> {CHR ''/''} then rstrip_sep head else head)"

definition os_path_basename :: "string \<Rightarrow> string" where
  "os_path_basename p = rev (takeWhile (\<lambda>c. c \<noteq> CHR ''/'') (rev p))"

section \<open>Path utilities\<close>

text \<open>
  The host and the file system, as far as the operators use them. A directory or file
  is identified with the path string it was created under (paths are not normalised),
  and paths are POSIX paths. \<open>filepath\<close> is
  \<^verbatim>\<open>bpy.data.filepath\<close>, the location of the open document. The three \<open>_error\<close>
  fields decide which external calls fail and with what message, so a statement about
  every \<open>world\<close> covers every pattern of failures. \<open>log\<close> records the external
  calls and the reports of the operators, oldest first.
\<close>

datatype exn = OSError string | RuntimeError string | ValueError string

datatype report_type = INFO | WARNING | ERROR

datatype event =
    Makedirs string
  | Select_all
  | Object_delete
  | Orphans_purge
  | Save_as_mainfile string bool
  | Move string string
  | Report report_type string

record world =
  dirs :: "string set"
  files :: "string set"
  filepath :: string
  objects :: "string set"
  selected :: "string set"
  mkdir_error :: "string \<Rightarrow> string option"
  ops_error :: "event \<Rightarrow> string option"
  move_error :: "string \<Rightarrow> string \<Rightarrow> string option"
  log :: "event list"

text \<open>
  \<^verbatim>\<open>bpy.path.abspath\<close> (host): a path with the prefix \<^verbatim>\<open>//\<close> is relative to the
  directory of the open document; any other path is returned as it is.
\<close>

definition bpy_path_abspath :: "world \<Rightarrow> string \<Rightarrow> string" where
  "bpy_path_abspath w path =
     (if take 2 path = ''//'' then join2 (os_path_dirname (filepath w)) (drop 2 path)
      else path)"

text \<open>The local variables \<^verbatim>\<open>safe_name\<close> and \<^verbatim>\<open>folder_name\<close> of \<^verbatim>\<open>get_project_root\<close>.\<close>

definition safe_name :: "StudioProjectProps \<Rightarrow> string" where
  "safe_name props = str_replace '' '' ''_'' (asset_name props)"

definition folder_name :: "StudioProjectProps \<Rightarrow> string" where
  "folder_name props = enum_identifier (asset_type props) @ ''_'' @ safe_name props"

definition get_project_root :: "world \<Rightarrow> StudioProjectProps \<Rightarrow> string" where
  "get_project_root w props =
     os_path_join (bpy_path_abspath w (base_path props)) [folder_name props]"

definition get_version_folder :: "world \<Rightarrow> StudioProjectProps \<Rightarrow> int \<Rightarrow> string" where
  "get_version_folder w props version_int =
     os_path_join (get_project_root w props) [''v'' @ format_02d version_int]"

definition get_arch_folder :: "world \<Rightarrow> StudioProjectProps \<Rightarrow> string" where
  "get_arch_folder w props = os_path_join (get_project_root w props) [''arch'']"

definition get_blend_filename :: "StudioProjectProps \<Rightarrow> int \<Rightarrow> string \<Rightarrow> string" where
  "get_blend_filename props version_int state =
     enum_identifier (asset_type props) @ ''_'' @ safe_name props
       @ ''_v'' @ format_02d version_int @ ''_'' @ state @ ''.blend''"

text \<open>
  \<open>direct_child parent p\<close>: \<open>p\<close> is \<open>parent\<close>, one separator (unless \<open>parent\<close>
  already ends with one) and one non-empty component without a separator.
\<close>

definition direct_child :: "string \<Rightarrow> string \<Rightarrow> bool" where
  "direct_child parent p =
     (parent \<noteq> [] \<and> take (length parent) p = parent \<and>
      (let rest = drop (length parent) p;
           name = (if last parent = CHR ''/'' then rest
                   else if take 1 rest = ''/'' then drop 1 rest else [])
       in name \<noteq> [] \<and> CHR ''/'' \<notin> set name))"

section \<open>File system and host operations\<close>

definition log_event :: "event \<Rightarrow> world \<Rightarrow> world" where
  "log_event e w = w\<lparr>log := log w @ [e]\<rparr>"

definition os_path_exists :: "world \<Rightarrow> string \<Rightarrow> bool" where
  "os_path_exists w p = (p \<in> dirs w \<or> p \<in> files w)"

text \<open>
  The directories \<^verbatim>\<open>os.makedirs(name)\<close> walks through: every prefix of \<open>name\<close> that
  ends before a separator (and does not itself end with one), shortest first, then
  \<open>name\<close>. The root directory \<^verbatim>\<open>/\<close> is not listed: it always exists.
\<close>

fun chain_from :: "string \<Rightarrow> string \<Rightarrow> string list" where
  "chain_from pre [] = [pre]"
| "chain_from pre (c # cs) =
     (if c = CHR ''/'' \<and> pre \<noteq> [] \<and> last pre \<noteq> CHR ''/''
      then pre # chain_from (pre @ [c]) cs
      else chain_from (pre @ [c]) cs)"

definition path_chain :: "string \<Rightarrow> string list" where
  "path_chain name = chain_from [] name"

text \<open>
  \<^verbatim>\<open>os.makedirs(name, exist_ok=True)\<close>: each directory of the chain that is missing
  is created in turn; one that exists is left alone. The call raises \<^verbatim>\<open>OSError\<close>
  when a regular file is in the way or when the operating system refuses a creation
  (\<open>mkdir_error\<close>); what was created before stays.
\<close>

fun mkdirs_chain :: "string list \<Rightarrow> world \<Rightarrow> (exn + unit) \<times> world" where
  "mkdirs_chain [] w = (Inr (), w)"
| "mkdirs_chain (d # ds) w =
     (if d \<in> dirs w then mkdirs_chain ds w
      else if d \<in> files w then (Inl (OSError ''File exists''), w)
      else case mkdir_error w d of
             Some m \<Rightarrow> (Inl (OSError m), w)
           | None \<Rightarrow> mkdirs_chain ds (w\<lparr>dirs := insert d (dirs w)\<rparr>))"

definition os_makedirs :: "string \<Rightarrow> world \<Rightarrow> (exn + unit) \<times> world" where
  "os_makedirs name w = mkdirs_chain (path_chain name) (log_event (Makedirs name) w)"

text \<open>
  \<^verbatim>\<open>shutil.move(src, dst)\<close>. An existing directory \<open>dst\<close> receives \<open>src\<close> under its
  own name. A successful move re-roots \<open>src\<close> and everything below it; a failing one
  raises and is taken to leave the file system as it was.
\<close>

definition relocate :: "string \<Rightarrow> string \<Rightarrow> string \<Rightarrow> string" where
  "relocate src dst p =
     (if p = src then dst
      else if take (length src + 1) p = src @ ''/'' then dst @ drop (length src) p
      else p)"

definition shutil_move :: "string \<Rightarrow> string \<Rightarrow> world \<Rightarrow> (exn + unit) \<times> world" where
  "shutil_move src dst w =
     (let w1 = log_event (Move src dst) w;
          real_dst = (if dst \<in> dirs w then join2 dst (os_path_basename src) else dst)
      in if \<not> os_path_exists w src then (Inl (OSError ''No such file or directory''), w1)
         else if dst \<in> dirs w \<and> os_path_exists w real_dst
           then (Inl (OSError ''Destination path already exists''), w1)
         else case move_error w src real_dst of
                Some m \<Rightarrow> (Inl (OSError m), w1)
              | None \<Rightarrow>
                  (Inr (), w1\<lparr>dirs := relocate src real_dst ` dirs w,
                              files := relocate src real_dst ` files w\<rparr>))"

text \<open>
  Host operators called through \<^verbatim>\<open>bpy.ops\<close>; a failing one raises
  \<^verbatim>\<open>RuntimeError\<close>. \<^verbatim>\<open>save_as_mainfile\<close> writes the document and, unless
  \<^verbatim>\<open>copy=True\<close>, makes the written file the open document's location.
\<close>

definition bpy_ops_object_select_all :: "world \<Rightarrow> (exn + unit) \<times> world" where
  "bpy_ops_object_select_all w =
     (let w1 = log_event Select_all w
      in case ops_error w Select_all of
           Some m \<Rightarrow> (Inl (RuntimeError m), w1)
         | None \<Rightarrow> (Inr (), w1\<lparr>selected := objects w\<rparr>))"

definition bpy_ops_object_delete :: "world \<Rightarrow> (exn + unit) \<times> world" where
  "bpy_ops_object_delete w =
     (let w1 = log_event Object_delete w
      in case ops_error w Object_delete of
           Some m \<Rightarrow> (Inl (RuntimeError m), w1)
         | None \<Rightarrow> (Inr (), w1\<lparr>objects := objects w - selected w, selected := {}\<rparr>))"

definition bpy_ops_outliner_orphans_purge :: "world \<Rightarrow> (exn + unit) \<times> world" where
  "bpy_ops_outliner_orphans_purge w =
     (let w1 = log_event Orphans_purge w
      in case ops_error w Orphans_purge of
           Some m \<Rightarrow> (Inl (RuntimeError m), w1)
         | None \<Rightarrow> (Inr (), w1))"

definition bpy_ops_wm_save_as_mainfile :: "string \<Rightarrow> bool \<Rightarrow> world \<Rightarrow> (exn + unit) \<times> world" where
  "bpy_ops_wm_save_as_mainfile path copy w =
     (let w1 = log_event (Save_as_mainfile path copy) w
      in case ops_error w (Save_as_mainfile path copy) of
           Some m \<Rightarrow> (Inl (RuntimeError m), w1)
         | None \<Rightarrow>
             (Inr (), w1\<lparr>files := insert path (files w),
                         filepath := (if copy then filepath w else path)\<rparr>))"

text \<open>\<^verbatim>\<open>self.report({type}, message)\<close> and \<^verbatim>\<open>str(e)\<close>.\<close>

definition report :: "report_type \<Rightarrow> string \<Rightarrow> world \<Rightarrow> world" where
  "report t msg w = log_event (Report t msg) w"

fun exn_str :: "exn \<Rightarrow> string" where
  "exn_str (OSError m) = m"
| "exn_str (RuntimeError m) = m"
| "exn_str (ValueError m) = m"

text \<open>
  Assigning \<^verbatim>\<open>props.version\<close>, declared \<^verbatim>\<open>IntProperty(min=1)\<close>: the host stores a
  C \<^verbatim>\<open>int\<close>, rejects a value outside its range with \<^verbatim>\<open>ValueError\<close> and clamps
  the others to the declared minimum.
\<close>

definition set_version :: "StudioProjectProps \<Rightarrow> int \<Rightarrow> exn + StudioProjectProps" where
  "set_version props v =
     (if v < - (2 ^ 31) \<or> 2 ^ 31 - 1 < v then Inl (ValueError ''value not in int range'')
      else Inr (props\<lparr>version := max 1 v\<rparr>))"

text \<open>Sequencing of calls that may raise: the first exception ends the sequence.\<close>

definition and_then ::
  "(exn + 'a) \<times> world \<Rightarrow> (world \<Rightarrow> (exn + 'b) \<times> world) \<Rightarrow> (exn + 'b) \<times> world" where
  "and_then r f = (case r of (Inl e, w) \<Rightarrow> (Inl e, w) | (Inr _, w) \<Rightarrow> f w)"

section \<open>Operators\<close>

datatype op_result = FINISHED | CANCELLED

text \<open>
  An \<^verbatim>\<open>execute\<close> method takes the properties and the world and gives back what it
  returned or the exception that left it, with the properties and the world as they
  are at that moment.
\<close>

type_synonym outcome = "(exn + op_result) \<times> StudioProjectProps \<times> world"

text \<open>The \<^verbatim>\<open>try\<close> block of \<^verbatim>\<open>STUDIO_OT_create_structure.execute\<close>, step 2.\<close>

definition create_physical_folders ::
  "string \<Rightarrow> string \<Rightarrow> string \<Rightarrow> world \<Rightarrow> (exn + unit) \<times> world" where
  "create_physical_folders wip_dir fin_dir arch_dir w =
     and_then (and_then (os_makedirs wip_dir w) (os_makedirs fin_dir)) (os_makedirs arch_dir)"

text \<open>\<^verbatim>\<open>STUDIO_OT_create_structure.execute\<close>\<close>

definition create_structure_execute :: "StudioProjectProps \<Rightarrow> world \<Rightarrow> outcome" where
  "create_structure_execute props w =
     (let ver_folder = get_version_folder w props (version props);
          wip_dir = os_path_join ver_folder [''wip'', ''projects''];
          fin_dir = os_path_join ver_folder [''fin'', ''projects''];
          arch_dir = get_arch_folder w props
      in case create_physical_folders wip_dir fin_dir arch_dir w of
           (Inl (OSError m), w1) \<Rightarrow>
             (Inr CANCELLED, props, report ERROR (''Could not create folders: '' @ m) w1)
         | (Inl e, w1) \<Rightarrow> (Inl e, props, w1)
         | (Inr _, w1) \<Rightarrow>
             (let fname = get_blend_filename props (version props) ''wip'';
                  full_path = os_path_join wip_dir [fname]
              in case bpy_ops_wm_save_as_mainfile full_path False w1 of
                   (Inl e, w2) \<Rightarrow>
                     (Inr CANCELLED, props,
                      report ERROR (''Could not save file: '' @ exn_str e) w2)
                 | (Inr _, w2) \<Rightarrow>
                     (Inr FINISHED, props\<lparr>is_generated := True\<rparr>,
                      report INFO (''Workbench Initialized: '' @ fname) w2)))"

text \<open>\<^verbatim>\<open>STUDIO_OT_archive_and_iterate.execute\<close>, step by step.\<close>

definition setup_next_version_folders ::
  "string \<Rightarrow> string \<Rightarrow> world \<Rightarrow> (exn + unit) \<times> world" where
  "setup_next_version_folders new_wip_dir new_fin_dir w =
     and_then (os_makedirs new_wip_dir w) (os_makedirs new_fin_dir)"

definition wipe_scene_step :: "bool \<Rightarrow> world \<Rightarrow> (exn + unit) \<times> world" where
  "wipe_scene_step wipe_scene w =
     (if wipe_scene
      then and_then (and_then (bpy_ops_object_select_all w) bpy_ops_object_delete)
             bpy_ops_outliner_orphans_purge
      else (Inr (), w))"

definition move_old_version_to_archive ::
  "int \<Rightarrow> string \<Rightarrow> string \<Rightarrow> world \<Rightarrow> world" where
  "move_old_version_to_archive cur_ver old_ver_folder arch_root w =
     (if os_path_exists w old_ver_folder then
        (let dest_in_arch = os_path_join arch_root [''v'' @ format_02d cur_ver]
         in if \<not> os_path_exists w dest_in_arch then
              (case shutil_move old_ver_folder dest_in_arch w of
                 (Inr _, w1) \<Rightarrow> report INFO (''v'' @ format_02d cur_ver @ '' Archived.'') w1
               | (Inl e, w1) \<Rightarrow>
                   report WARNING (''Failed to move to archive: '' @ exn_str e) w1)
            else report WARNING
                   (''Archive for v'' @ format_02d cur_ver @ '' already exists.'') w)
      else w)"

definition archive_and_iterate_execute ::
  "bool \<Rightarrow> StudioProjectProps \<Rightarrow> world \<Rightarrow> outcome" where
  "archive_and_iterate_execute wipe_scene props w =
     (let cur_ver = version props;
          next_ver = cur_ver + 1;
          old_ver_folder = get_version_folder w props cur_ver;
          arch_root = get_arch_folder w props;
          new_ver_folder = get_version_folder w props next_ver;
          new_wip_dir = os_path_join new_ver_folder [''wip'', ''projects''];
          new_fin_dir = os_path_join new_ver_folder [''fin'', ''projects'']
      in case setup_next_version_folders new_wip_dir new_fin_dir w of
           (Inl e, w1) \<Rightarrow> (Inl e, props, w1)
         | (Inr _, w1) \<Rightarrow>
        (case wipe_scene_step wipe_scene w1 of
           (Inl e, w2) \<Rightarrow> (Inl e, props, w2)
         | (Inr _, w2) \<Rightarrow>
        (let new_fname = get_blend_filename props next_ver ''wip'';
             new_filepath = os_path_join new_wip_dir [new_fname]
         in case bpy_ops_wm_save_as_mainfile new_filepath False w2 of
              (Inl e, w3) \<Rightarrow> (Inl e, props, w3)
            | (Inr _, w3) \<Rightarrow>
           (let w4 = move_old_version_to_archive cur_ver old_ver_folder arch_root w3
            in case set_version props next_ver of
                 Inl e \<Rightarrow> (Inl e, props, w4)
               | Inr props' \<Rightarrow> (Inr FINISHED, props', w4)))))"

text \<open>\<^verbatim>\<open>STUDIO_OT_finalize.execute\<close>\<close>

definition finalize_execute :: "StudioProjectProps \<Rightarrow> world \<Rightarrow> outcome" where
  "finalize_execute props w =
     (let ver_folder = get_version_folder w props (version props);
          fin_dir = os_path_join ver_folder [''fin'', ''projects'']
      in case (if \<not> os_path_exists w fin_dir then os_makedirs fin_dir w else (Inr (), w)) of
           (Inl e, w1) \<Rightarrow> (Inl e, props, w1)
         | (Inr _, w1) \<Rightarrow>
             (let fname = get_blend_filename props (version props) ''fin'';
                  path = os_path_join fin_dir [fname]
              in case bpy_ops_wm_save_as_mainfile path True w1 of
                   (Inl e, w2) \<Rightarrow> (Inl e, props, w2)
                 | (Inr _, w2) \<Rightarrow>
                     (Inr FINISHED, props, report INFO (''Published Final: '' @ fname) w2)))"

text \<open>
  \<^verbatim>\<open>STUDIO_OT_startup_dialog.execute\<close> returns what \<^verbatim>\<open>create_structure\<close>
  returns. The call goes through \<^verbatim>\<open>bpy.ops\<close>, which hands an error report of the
  callee to the caller as a \<^verbatim>\<open>RuntimeError\<close>; that conversion concerns the returned
  value only and is left out: the properties and the world are those of
  \<^verbatim>\<open>create_structure\<close>.
\<close>

definition startup_dialog_execute :: "StudioProjectProps \<Rightarrow> world \<Rightarrow> outcome" where
  "startup_dialog_execute props w = create_structure_execute props w"

text \<open>The operators a user can trigger, and a session of them on one document.\<close>

datatype operation = Create_structure | Startup_dialog | Archive_iterate bool | Finalize

fun run_operation :: "operation \<Rightarrow> StudioProjectProps \<Rightarrow> world \<Rightarrow> outcome" where
  "run_operation Create_structure props w = create_structure_execute props w"
| "run_operation Startup_dialog props w = startup_dialog_execute props w"
| "run_operation (Archive_iterate wipe_scene) props w =
     archive_and_iterate_execute wipe_scene props w"
| "run_operation Finalize props w = finalize_execute props w"

fun run_session ::
  "operation list \<Rightarrow> StudioProjectProps \<times> world \<Rightarrow> StudioProjectProps \<times> world" where
  "run_session [] s = s"
| "run_session (x # xs) (props, w) = run_session xs (snd (run_operation x props w))"

section \<open>Vocabulary for the statements\<close>

text \<open>
  The folders and files of a version, as the operators compute them in their local
  variables \<^verbatim>\<open>wip_dir\<close>, \<^verbatim>\<open>fin_dir\<close> and \<^verbatim>\<open>full_path\<close>.
\<close>

definition wip_projects :: "world \<Rightarrow> StudioProjectProps \<Rightarrow> int \<Rightarrow> string" where
  "wip_projects w props v = os_path_join (get_version_folder w props v) [''wip'', ''projects'']"

definition fin_projects :: "world \<Rightarrow> StudioProjectProps \<Rightarrow> int \<Rightarrow> string" where
  "fin_projects w props v = os_path_join (get_version_folder w props v) [''fin'', ''projects'']"

definition wip_file :: "world \<Rightarrow> StudioProjectProps \<Rightarrow> int \<Rightarrow> string" where
  "wip_file w props v =
     os_path_join (wip_projects w props v) [get_blend_filename props v ''wip'']"

definition fin_file :: "world \<Rightarrow> StudioProjectProps \<Rightarrow> int \<Rightarrow> string" where
  "fin_file w props v =
     os_path_join (fin_projects w props v) [get_blend_filename props v ''fin'']"

definition archive_dest :: "world \<Rightarrow> StudioProjectProps \<Rightarrow> int \<Rightarrow> string" where
  "archive_dest w props v = os_path_join (get_arch_folder w props) [''v'' @ format_02d v]"

text \<open>
  Steps 1 to 3 of the Version Iterator in one piece: the folders of the next version,
  the optional wipe and the save, ending at the first exception.
\<close>

definition steps_before_archive ::
  "bool \<Rightarrow> StudioProjectProps \<Rightarrow> world \<Rightarrow> (exn + unit) \<times> world" where
  "steps_before_archive wipe_scene props w =
     and_then
       (and_then
          (setup_next_version_folders (wip_projects w props (version props + 1))
             (fin_projects w props (version props + 1)) w)
          (wipe_scene_step wipe_scene))
       (bpy_ops_wm_save_as_mainfile (wip_file w props (version props + 1)) False)"

text \<open>What a run added to the log, and the kinds of entries.\<close>

definition new_events :: "world \<Rightarrow> world \<Rightarrow> event list" where
  "new_events w w' = drop (length (log w)) (log w')"

fun is_save :: "event \<Rightarrow> bool" where
  "is_save (Save_as_mainfile path copy) = True"
| "is_save e = False"

fun is_makedirs :: "event \<Rightarrow> bool" where
  "is_makedirs (Makedirs name) = True"
| "is_makedirs e = False"

fun is_move :: "event \<Rightarrow> bool" where
  "is_move (Move src dst) = True"
| "is_move e = False"

fun is_report :: "event \<Rightarrow> bool" where
  "is_report (Report t msg) = True"
| "is_report e = False"

section \<open>Example states\<close>

definition quiet_world :: world where
  "quiet_world =
     \<lparr>dirs = {''/home'', ''/home/u''}, files = {''/home/u/scene.blend''},
      filepath = ''/home/u/scene.blend'', objects = {''Cube''}, selected = {},
      mkdir_error = (\<lambda>_. None), ops_error = (\<lambda>_. None),
      move_error = (\<lambda>_ _. None), log = []\<rparr>"

definition fin_denied_world :: world where
  "fin_denied_world =
     quiet_world\<lparr>mkdir_error :=
       (\<lambda>d. if d = ''/home/u/prp_My_Asset/v01/fin'' then Some ''Permission denied'' else None)\<rparr>"

definition save_failing_world :: world where
  "save_failing_world =
     quiet_world\<lparr>ops_error :=
       (\<lambda>e. if is_save e then Some ''Cannot open file for writing'' else None)\<rparr>"

definition versioned_world :: world where
  "versioned_world =
     quiet_world\<lparr>dirs :=
       {''/home'', ''/home/u'', ''/home/u/prp_My_Asset'', ''/home/u/prp_My_Asset/arch'',
        ''/home/u/prp_My_Asset/v01'', ''/home/u/prp_My_Asset/v01/wip'',
        ''/home/u/prp_My_Asset/v01/wip/projects''}\<rparr>"

definition archive_taken_world :: world where
  "archive_taken_world =
     versioned_world\<lparr>dirs := insert ''/home/u/prp_My_Asset/arch/v01'' (dirs versioned_world)\<rparr>"

definition move_failing_world :: world where
  "move_failing_world = versioned_world\<lparr>move_error := (\<lambda>src dst. Some ''Permission denied'')\<rparr>"

definition next_denied_world :: world where
  "next_denied_world =
     quiet_world\<lparr>mkdir_error :=
       (\<lambda>d. if d = ''/home/u/prp_My_Asset/v02'' then Some ''Permission denied'' else None)\<rparr>"

definition wipe_failing_world :: world where
  "wipe_failing_world =
     quiet_world\<lparr>ops_error :=
       (\<lambda>e. if e = Object_delete then Some ''context is incorrect'' else None)\<rparr>"

definition my_asset :: StudioProjectProps where
  "my_asset =
     \<lparr>base_path = ''/home/u'', asset_type = Prp, asset_name = ''My Asset'',
      version = 1, is_generated = False\<rparr>"

section \<open>Strings and numbers\<close>

lemma str_replace_char:
  "str_replace [a] [b] s = map (\<lambda>c. if c = a then b else c) s"
proof (induction s)
  case Nil
  show ?case by (simp add: str_replace.simps)
next
  case (Cons c s)
  show ?case
    by (subst str_replace.simps) (simp add: Cons.IH)
qed

lemma digit_char_cases:
  "d < 10 \<Longrightarrow> digit_char d \<in> set ''0123456789'' \<and> of_char (digit_char d) = 48 + d"
proof -
  assume "d < 10"
  then have "d \<in> {0, 1, 2, 3, 4, 5, 6, 7, 8, 9}" by auto
  then show ?thesis
    by (auto simp: digit_char_def)
qed

lemma dec_nonempty: "dec n \<noteq> []"
  by (subst dec.simps) simp

lemma dec_digits: "set (dec n) \<subseteq> set ''0123456789''"
proof (induction n rule: dec.induct)
  case (1 n)
  show ?case
  proof (cases "n < 10")
    case True
    then show ?thesis
      using digit_char_cases [of n] by (subst dec.simps) simp
  next
    case False
    have "n mod 10 < 10" by simp
    then have "digit_char (n mod 10) \<in> set ''0123456789''"
      using digit_char_cases by blast
    with False 1 show ?thesis
      by (subst dec.simps) simp
  qed
qed

lemma undec_snoc: "undec (s @ [c]) = 10 * undec s + (of_char c - 48)"
  by (simp add: undec_def)

lemma undec_dec: "undec (dec n) = n"
proof (induction n rule: dec.induct)
  case (1 n)
  show ?case
  proof (cases "n < 10")
    case True
    then show ?thesis
      using digit_char_cases [of n] by (subst dec.simps) (simp add: undec_def)
  next
    case False
    have "n mod 10 < 10" by simp
    then have "of_char (digit_char (n mod 10)) = 48 + n mod 10"
      using digit_char_cases by blast
    with False 1 show ?thesis
      by (subst dec.simps) (simp add: undec_snoc)
  qed
qed

lemma undec_zeros: "undec (replicate k CHR ''0'' @ s) = undec s"
  by (induction k) (simp_all add: undec_def)

lemma dec_no_minus: "take 1 (dec n) \<noteq> ''-''"
proof
  assume h: "take 1 (dec n) = ''-''"
  have "set (take 1 (dec n)) \<subseteq> set (dec n)" by (rule set_take_subset)
  with h dec_digits [of n] show False by auto
qed

lemma parse_format_02d: "parse_02d (format_02d n) = n"
proof (cases "n < 0")
  case True
  then show ?thesis by (simp add: format_02d_def parse_02d_def undec_dec)
next
  case False
  let ?k = "2 - length (dec (nat n))"
  have "take 1 (replicate ?k CHR ''0'' @ dec (nat n)) \<noteq> ''-''"
  proof (cases ?k)
    case 0
    then show ?thesis using dec_no_minus [of "nat n"] by simp
  next
    case (Suc j)
    then show ?thesis by simp
  qed
  with False show ?thesis
    by (simp add: format_02d_def parse_02d_def undec_zeros undec_dec)
qed

lemma format_02d_inj: "format_02d a = format_02d b \<Longrightarrow> a = b"
  by (metis parse_format_02d)

lemma format_02d_no_sep: "CHR ''/'' \<notin> set (format_02d n)"
  using dec_digits [of "nat n"] dec_digits [of "nat (- n)"]
  by (auto simp: format_02d_def)

section \<open>Path builder\<close>

lemma join2_rel:
  "take 1 b \<noteq> ''/'' \<Longrightarrow>
   join2 path b = path @ (if path = [] \<or> last path = CHR ''/'' then [] else ''/'') @ b"
  by (simp add: join2_def)

lemma join2_inj:
  "take 1 b \<noteq> ''/'' \<Longrightarrow> take 1 c \<noteq> ''/'' \<Longrightarrow> join2 path b = join2 path c \<Longrightarrow> b = c"
  by (simp add: join2_def split: if_splits)

lemma enum_identifier_cases:
  "enum_identifier t = (case t of Prp \<Rightarrow> ''prp'' | Chr \<Rightarrow> ''chr'' | Res \<Rightarrow> ''res'')"
  by (cases t) (simp_all add: enum_identifier_def TYPE_ITEMS_def)

lemma display_label_cases:
  "display_label t =
     (case t of Prp \<Rightarrow> ''Prop (prp)'' | Chr \<Rightarrow> ''Character (chr)''
      | Res \<Rightarrow> ''Resource (res)'')"
  by (cases t) (simp_all add: display_label_def TYPE_ITEMS_def)

lemma folder_name_head: "take 1 (folder_name props) \<noteq> ''/'' \<and> folder_name props \<noteq> []"
  by (cases "asset_type props") (simp_all add: folder_name_def enum_identifier_cases)

lemma project_root_shape:
  "get_project_root w props =
     bpy_path_abspath w (base_path props)
       @ (if bpy_path_abspath w (base_path props) = []
             \<or> last (bpy_path_abspath w (base_path props)) = CHR ''/'' then [] else ''/'')
       @ folder_name props"
  using folder_name_head [of props]
  by (simp add: get_project_root_def os_path_join_def join2_rel)

lemma project_root_nonempty: "get_project_root w props \<noteq> []"
  using folder_name_head [of props] by (simp add: project_root_shape)

lemma version_folder_join2:
  "get_version_folder w props v = join2 (get_project_root w props) (''v'' @ format_02d v)"
  by (simp add: get_version_folder_def os_path_join_def)

lemma direct_child_join2:
  assumes "parent \<noteq> []" "name \<noteq> []" "CHR ''/'' \<notin> set name"
  shows "direct_child parent (join2 parent name)"
proof -
  from assms have hd: "take 1 name \<noteq> ''/''"
    by (cases name) auto
  show ?thesis
  proof (cases "last parent = CHR ''/''")
    case True
    with assms hd show ?thesis
      by (simp add: join2_rel direct_child_def)
  next
    case False
    with assms hd show ?thesis
      by (simp add: join2_rel direct_child_def)
  qed
qed

lemmas path_eval =
  get_version_folder_def get_project_root_def get_arch_folder_def get_blend_filename_def
  os_path_join_def join2_def bpy_path_abspath_def os_path_dirname_def os_path_basename_def
  folder_name_def safe_name_def str_replace_char enum_identifier_cases format_02d_def
  dec.simps digit_char_def

text \<open>
  Claim C6, as the code has it. For every configuration and version the \<open>wip\<close> and
  \<open>fin\<close> file names differ. \<open>get_blend_filename\<close> is a total function of the asset
  type, the asset name, the version and the state alone: configurations that agree on
  type and name give the same file name, whatever their root path, stored version and
  \<open>is_generated\<close>, and no host state enters. \<open>get_version_folder\<close> is a total
  function of type, name, version and the root path as the host resolves it
  (\<^verbatim>\<open>bpy.path.abspath(props.base_path)\<close>): two configurations and host states that
  agree on these give the same folder.
\<close>

theorem blend_filename_version_folder_determined:
  "get_blend_filename props v ''wip'' \<noteq> get_blend_filename props v ''fin'' \<and>
   (asset_type props = asset_type props' \<and> asset_name props = asset_name props' \<longrightarrow>
      get_blend_filename props v state = get_blend_filename props' v state \<and>
      (bpy_path_abspath w (base_path props) = bpy_path_abspath w' (base_path props') \<longrightarrow>
         get_version_folder w props v = get_version_folder w' props' v))"
  by (simp add: get_blend_filename_def get_version_folder_def get_project_root_def
        folder_name_def safe_name_def)

theorem blend_filename_version_folder_determined_witness:
  "asset_type my_asset = asset_type (my_asset\<lparr>version := 7, is_generated := True\<rparr>) \<and>
   asset_name my_asset = asset_name (my_asset\<lparr>version := 7, is_generated := True\<rparr>) \<and>
   bpy_path_abspath quiet_world (base_path my_asset) =
     bpy_path_abspath (quiet_world\<lparr>filepath := ''/tmp/other.blend''\<rparr>)
       (base_path (my_asset\<lparr>version := 7, is_generated := True\<rparr>)) \<and>
   get_blend_filename my_asset 3 ''wip'' \<noteq> get_blend_filename my_asset 3 ''fin'' \<and>
   get_blend_filename my_asset 3 ''fin'' =
     get_blend_filename (my_asset\<lparr>version := 7, is_generated := True\<rparr>) 3 ''fin'' \<and>
   get_version_folder quiet_world my_asset 3 =
     get_version_folder (quiet_world\<lparr>filepath := ''/tmp/other.blend''\<rparr>)
       (my_asset\<lparr>version := 7, is_generated := True\<rparr>) 3"
proof -
  have root:
    "bpy_path_abspath quiet_world (base_path my_asset) =
       bpy_path_abspath (quiet_world\<lparr>filepath := ''/tmp/other.blend''\<rparr>)
         (base_path (my_asset\<lparr>version := 7, is_generated := True\<rparr>))"
    by (simp add: my_asset_def bpy_path_abspath_def)
  have type: "asset_type my_asset = asset_type (my_asset\<lparr>version := 7, is_generated := True\<rparr>)"
    and name: "asset_name my_asset = asset_name (my_asset\<lparr>version := 7, is_generated := True\<rparr>)"
    by simp_all
  show ?thesis
    using type name root blend_filename_version_folder_determined
      [of my_asset 3 "my_asset\<lparr>version := 7, is_generated := True\<rparr>" "''fin''"
          quiet_world "quiet_world\<lparr>filepath := ''/tmp/other.blend''\<rparr>"]
    by blast
qed

text \<open>
  The claim as worded fails for \<open>get_version_folder\<close>: with type, name and version
  fixed, another root path gives another folder, and with the default root \<^verbatim>\<open>//\<close>
  so does another location of the open document.
\<close>

theorem version_folder_not_of_type_name_version_alone:
  "asset_type (my_asset\<lparr>base_path := ''/srv''\<rparr>) = asset_type my_asset \<and>
   asset_name (my_asset\<lparr>base_path := ''/srv''\<rparr>) = asset_name my_asset \<and>
   get_version_folder quiet_world my_asset 1 = ''/home/u/prp_My_Asset/v01'' \<and>
   get_version_folder quiet_world (my_asset\<lparr>base_path := ''/srv''\<rparr>) 1
     = ''/srv/prp_My_Asset/v01'' \<and>
   get_version_folder quiet_world default_props 1 = ''/home/u/prp_New_Asset/v01'' \<and>
   get_version_folder (quiet_world\<lparr>filepath := ''/tmp/other.blend''\<rparr>) default_props 1
     = ''/tmp/prp_New_Asset/v01''"
  by (simp add: path_eval my_asset_def quiet_world_def default_props_def)

text \<open>
  Claim C7. For a fixed configuration (and host state), distinct versions have distinct
  version folders, and every version folder is a direct child of the project root: the
  root, one separator, one component. No bound on the versions is needed.
\<close>

theorem version_folder_distinct_child:
  "(v1 \<noteq> v2 \<longrightarrow> get_version_folder w props v1 \<noteq> get_version_folder w props v2) \<and>
   direct_child (get_project_root w props) (get_version_folder w props v)"
proof
  show "v1 \<noteq> v2 \<longrightarrow> get_version_folder w props v1 \<noteq> get_version_folder w props v2"
  proof (intro impI notI)
    assume ne: "v1 \<noteq> v2"
      and eq: "get_version_folder w props v1 = get_version_folder w props v2"
    have "''v'' @ format_02d v1 = ''v'' @ format_02d v2"
      by (rule join2_inj [of _ _ "get_project_root w props"])
         (use eq in \<open>simp_all add: version_folder_join2\<close>)
    then have "v1 = v2" by (simp add: format_02d_inj)
    with ne show False by simp
  qed
  show "direct_child (get_project_root w props) (get_version_folder w props v)"
    unfolding version_folder_join2
    by (rule direct_child_join2) (simp_all add: project_root_nonempty format_02d_no_sep)
qed

theorem version_folder_distinct_child_witness:
  "(9::int) \<noteq> 10 \<and>
   get_version_folder quiet_world my_asset 9 \<noteq> get_version_folder quiet_world my_asset 10 \<and>
   direct_child (get_project_root quiet_world my_asset)
     (get_version_folder quiet_world my_asset 100)"
  using version_folder_distinct_child [of 9 10 quiet_world my_asset 100]
  by simp

text \<open>
  Claim C8. The safe name is the asset name with every space replaced by an underscore
  and every other character kept, in place; folder and file names start with the type
  code, which differs from the display label of every type; the asset \<open>My Asset\<close> of
  type prop has the folder name \<open>prp_My_Asset\<close>.
\<close>

theorem sanitization_and_type_code:
  "safe_name props = map (\<lambda>c. if c = CHR '' '' then CHR ''_'' else c) (asset_name props) \<and>
   folder_name props = enum_identifier (asset_type props) @ ''_'' @ safe_name props \<and>
   enum_identifier t \<noteq> display_label t \<and>
   enum_identifier Prp = ''prp'' \<and>
   folder_name (props\<lparr>asset_type := Prp, asset_name := ''My Asset''\<rparr>) = ''prp_My_Asset'' \<and>
   get_project_root w (props\<lparr>asset_type := Prp, asset_name := ''My Asset''\<rparr>) =
     os_path_join (bpy_path_abspath w (base_path props)) [''prp_My_Asset''] \<and>
   get_blend_filename (props\<lparr>asset_type := Prp, asset_name := ''My Asset''\<rparr>) v state =
     ''prp_My_Asset'' @ ''_v'' @ format_02d v @ ''_'' @ state @ ''.blend''"
proof -
  have "enum_identifier t \<noteq> display_label t"
    by (cases t) (simp_all add: enum_identifier_cases display_label_cases)
  then show ?thesis
    by (simp add: safe_name_def folder_name_def get_project_root_def get_blend_filename_def
          str_replace_char enum_identifier_cases)
qed

section \<open>File system and host: effects of the calls\<close>

lemma log_event_fields [simp]:
  "dirs (log_event e w) = dirs w"
  "files (log_event e w) = files w"
  "filepath (log_event e w) = filepath w"
  "objects (log_event e w) = objects w"
  "selected (log_event e w) = selected w"
  "mkdir_error (log_event e w) = mkdir_error w"
  "ops_error (log_event e w) = ops_error w"
  "move_error (log_event e w) = move_error w"
  "log (log_event e w) = log w @ [e]"
  by (simp_all add: log_event_def)

lemma os_path_exists_log_event [simp]:
  "os_path_exists (log_event e w) p = os_path_exists w p"
  by (simp add: os_path_exists_def)

lemma chain_from_last: "chain_from pre cs \<noteq> [] \<and> last (chain_from pre cs) = pre @ cs"
  by (induction cs arbitrary: pre) auto

lemma path_chain_self: "name \<in> set (path_chain name)"
  using chain_from_last [of "[]" name] last_in_set [of "path_chain name"]
  by (simp add: path_chain_def)

lemma mkdirs_chain_effect:
  "mkdirs_chain ds w = (r, w') \<Longrightarrow>
     \<exists>D. w' = w\<lparr>dirs := D\<rparr> \<and> dirs w \<subseteq> D \<and> D \<subseteq> dirs w \<union> set ds \<and>
       (\<forall>u. r = Inr u \<longrightarrow> D = dirs w \<union> set ds) \<and>
       (\<forall>e. r = Inl e \<longrightarrow> (\<exists>m. e = OSError m))"
proof (induction ds arbitrary: w)
  case Nil
  then show ?case by (intro exI [of _ "dirs w"]) auto
next
  case (Cons d ds)
  show ?case
  proof (cases "d \<in> dirs w")
    case True
    with Cons.prems have "mkdirs_chain ds w = (r, w')" by simp
    from Cons.IH [OF this] True show ?thesis by auto
  next
    case False
    show ?thesis
    proof (cases "d \<in> files w \<or> mkdir_error w d \<noteq> None")
      case True
      with False Cons.prems have "w' = w" and "\<exists>m. r = Inl (OSError m)"
        by (auto split: option.splits if_splits)
      then show ?thesis
        by (intro exI [of _ "dirs w"]) auto
    next
      case ok: False
      with False Cons.prems
      have "mkdirs_chain ds (w\<lparr>dirs := insert d (dirs w)\<rparr>) = (r, w')" by simp
      from Cons.IH [OF this] obtain D where
        D: "w' = w\<lparr>dirs := D\<rparr>" "insert d (dirs w) \<subseteq> D" "D \<subseteq> insert d (dirs w) \<union> set ds"
          "\<forall>u. r = Inr u \<longrightarrow> D = insert d (dirs w) \<union> set ds"
          "\<forall>e. r = Inl e \<longrightarrow> (\<exists>m. e = OSError m)"
        by auto
      show ?thesis
        by (rule exI [of _ D]) (use D in auto)
    qed
  qed
qed

lemma mkdirs_chain_present:
  "set ds \<subseteq> dirs w \<Longrightarrow> mkdirs_chain ds w = (Inr (), w)"
  by (induction ds) auto

lemma mkdirs_chain_free:
  "\<forall>d \<in> set ds. d \<notin> files w \<and> mkdir_error w d = None \<Longrightarrow>
   \<exists>w'. mkdirs_chain ds w = (Inr (), w')"
proof (induction ds arbitrary: w)
  case Nil
  then show ?case by simp
next
  case (Cons d ds)
  have "\<exists>w'. mkdirs_chain ds (w\<lparr>dirs := insert d (dirs w)\<rparr>) = (Inr (), w')"
    by (rule Cons.IH) (use Cons.prems in simp)
  moreover have "\<exists>w'. mkdirs_chain ds w = (Inr (), w')"
    by (rule Cons.IH) (use Cons.prems in simp)
  ultimately show ?case using Cons.prems by auto
qed

lemma os_makedirs_effect:
  "os_makedirs name w = (r, w') \<Longrightarrow>
     \<exists>D. w' = w\<lparr>dirs := D, log := log w @ [Makedirs name]\<rparr> \<and>
       dirs w \<subseteq> D \<and> D \<subseteq> dirs w \<union> set (path_chain name) \<and>
       (\<forall>u. r = Inr u \<longrightarrow> D = dirs w \<union> set (path_chain name)) \<and>
       (\<forall>e. r = Inl e \<longrightarrow> (\<exists>m. e = OSError m))"
proof -
  assume "os_makedirs name w = (r, w')"
  then have "mkdirs_chain (path_chain name) (log_event (Makedirs name) w) = (r, w')"
    by (simp add: os_makedirs_def)
  from mkdirs_chain_effect [OF this] obtain D where
    D: "w' = (log_event (Makedirs name) w)\<lparr>dirs := D\<rparr>" "dirs w \<subseteq> D"
      "D \<subseteq> dirs w \<union> set (path_chain name)"
      "\<forall>u. r = Inr u \<longrightarrow> D = dirs w \<union> set (path_chain name)"
      "\<forall>e. r = Inl e \<longrightarrow> (\<exists>m. e = OSError m)"
    by auto
  show ?thesis
    by (rule exI [of _ D]) (use D in \<open>simp add: log_event_def\<close>)
qed

lemma os_makedirs_present:
  "set (path_chain name) \<subseteq> dirs w \<Longrightarrow>
   os_makedirs name w = (Inr (), log_event (Makedirs name) w)"
  by (simp add: os_makedirs_def mkdirs_chain_present)

lemma os_makedirs_free:
  "\<forall>d \<in> set (path_chain name). d \<notin> files w \<and> mkdir_error w d = None \<Longrightarrow>
   \<exists>w'. os_makedirs name w = (Inr (), w')"
  unfolding os_makedirs_def
  by (rule mkdirs_chain_free) simp

lemma new_events_append [simp]:
  "log w' = log w @ evs \<Longrightarrow> new_events w w' = evs"
  by (simp add: new_events_def)

lemma report_fields [simp]:
  "dirs (report t msg w) = dirs w"
  "files (report t msg w) = files w"
  "filepath (report t msg w) = filepath w"
  "log (report t msg w) = log w @ [Report t msg]"
  by (simp_all add: report_def)

lemma create_physical_folders_effect:
  assumes "create_physical_folders a b c w = (r, w1)"
  shows "\<exists>D evs. w1 = w\<lparr>dirs := D, log := log w @ evs\<rparr> \<and> dirs w \<subseteq> D \<and>
           D \<subseteq> dirs w \<union> set (path_chain a) \<union> set (path_chain b) \<union> set (path_chain c) \<and>
           filter is_makedirs evs = evs \<and>
           (\<forall>u. r = Inr u \<longrightarrow>
              evs = [Makedirs a, Makedirs b, Makedirs c] \<and>
              D = dirs w \<union> set (path_chain a) \<union> set (path_chain b) \<union> set (path_chain c)) \<and>
           (\<forall>e. r = Inl e \<longrightarrow> (\<exists>m. e = OSError m))"
proof -
  obtain ra wa where a: "os_makedirs a w = (ra, wa)" by (cases "os_makedirs a w")
  from os_makedirs_effect [OF a] obtain Da where
    Da: "wa = w\<lparr>dirs := Da, log := log w @ [Makedirs a]\<rparr>" "dirs w \<subseteq> Da"
      "Da \<subseteq> dirs w \<union> set (path_chain a)"
      "\<forall>u. ra = Inr u \<longrightarrow> Da = dirs w \<union> set (path_chain a)"
      "\<forall>e. ra = Inl e \<longrightarrow> (\<exists>m. e = OSError m)"
    by auto
  show ?thesis
  proof (cases ra)
    case (Inl e)
    with assms a have "r = Inl e" "w1 = wa"
      by (simp_all add: create_physical_folders_def and_then_def)
    with Da Inl show ?thesis
      by (intro exI [of _ Da] exI [of _ "[Makedirs a]"]) auto
  next
    case (Inr ua)
    obtain rb wb where b: "os_makedirs b wa = (rb, wb)" by (cases "os_makedirs b wa")
    from os_makedirs_effect [OF b] obtain Db where
      Db: "wb = wa\<lparr>dirs := Db, log := log wa @ [Makedirs b]\<rparr>" "dirs wa \<subseteq> Db"
        "Db \<subseteq> dirs wa \<union> set (path_chain b)"
        "\<forall>u. rb = Inr u \<longrightarrow> Db = dirs wa \<union> set (path_chain b)"
        "\<forall>e. rb = Inl e \<longrightarrow> (\<exists>m. e = OSError m)"
      by auto
    show ?thesis
    proof (cases rb)
      case (Inl e)
      with assms a b Inr have "r = Inl e" "w1 = wb"
        by (simp_all add: create_physical_folders_def and_then_def)
      with Da Db Inl Inr show ?thesis
        by (intro exI [of _ Db] exI [of _ "[Makedirs a, Makedirs b]"]) auto
    next
      case rbr: (Inr ub)
      obtain rc wc where c: "os_makedirs c wb = (rc, wc)" by (cases "os_makedirs c wb")
      from os_makedirs_effect [OF c] obtain Dc where
        Dc: "wc = wb\<lparr>dirs := Dc, log := log wb @ [Makedirs c]\<rparr>" "dirs wb \<subseteq> Dc"
          "Dc \<subseteq> dirs wb \<union> set (path_chain c)"
          "\<forall>u. rc = Inr u \<longrightarrow> Dc = dirs wb \<union> set (path_chain c)"
          "\<forall>e. rc = Inl e \<longrightarrow> (\<exists>m. e = OSError m)"
        by auto
      from assms a b c Inr rbr have rw: "r = rc" "w1 = wc"
        by (simp_all add: create_physical_folders_def and_then_def)
      show ?thesis
        by (intro exI [of _ Dc] exI [of _ "[Makedirs a, Makedirs b, Makedirs c]"])
           (use rw Da Db Dc Inr rbr in auto)
    qed
  qed
qed

section \<open>Structure Initializer\<close>

lemma create_structure_execute_steps:
  "create_structure_execute props w =
     (case create_physical_folders (wip_projects w props (version props))
             (fin_projects w props (version props)) (get_arch_folder w props) w of
        (Inl (OSError m), w1) \<Rightarrow>
          (Inr CANCELLED, props, report ERROR (''Could not create folders: '' @ m) w1)
      | (Inl e, w1) \<Rightarrow> (Inl e, props, w1)
      | (Inr _, w1) \<Rightarrow>
          (case bpy_ops_wm_save_as_mainfile (wip_file w props (version props)) False w1 of
             (Inl e, w2) \<Rightarrow>
               (Inr CANCELLED, props, report ERROR (''Could not save file: '' @ exn_str e) w2)
           | (Inr _, w2) \<Rightarrow>
               (Inr FINISHED, props\<lparr>is_generated := True\<rparr>,
                report INFO
                  (''Workbench Initialized: '' @ get_blend_filename props (version props) ''wip'')
                  w2)))"
  by (simp add: create_structure_execute_def Let_def wip_projects_def fin_projects_def
        wip_file_def split: prod.splits sum.splits exn.splits)

lemma save_as_mainfile_cases:
  "bpy_ops_wm_save_as_mainfile path copy w =
     (case ops_error w (Save_as_mainfile path copy) of
        Some m \<Rightarrow> (Inl (RuntimeError m), log_event (Save_as_mainfile path copy) w)
      | None \<Rightarrow>
          (Inr (), w\<lparr>files := insert path (files w),
                     filepath := (if copy then filepath w else path),
                     log := log w @ [Save_as_mainfile path copy]\<rparr>))"
  by (simp add: bpy_ops_wm_save_as_mainfile_def Let_def log_event_def split: option.splits)

lemma create_structure_folder_failure:
  assumes "create_physical_folders (wip_projects w props (version props))
             (fin_projects w props (version props)) (get_arch_folder w props) w = (Inl e, w1)"
  shows "\<exists>m. e = OSError m \<and>
           create_structure_execute props w =
             (Inr CANCELLED, props, report ERROR (''Could not create folders: '' @ m) w1)"
    and "filter is_save (new_events w (report ERROR msg w1)) = []"
    and "dirs w \<subseteq> dirs w1"
proof -
  from create_physical_folders_effect [OF assms] obtain D evs m where
    D: "w1 = w\<lparr>dirs := D, log := log w @ evs\<rparr>" "dirs w \<subseteq> D"
      "filter is_makedirs evs = evs" "e = OSError m"
    by auto
  from assms D(4) show "\<exists>m. e = OSError m \<and>
           create_structure_execute props w =
             (Inr CANCELLED, props, report ERROR (''Could not create folders: '' @ m) w1)"
    by (simp add: create_structure_execute_steps)
  have "filter is_save evs = filter is_save (filter is_makedirs evs)"
    using D(3) by simp
  also have "\<dots> = []"
    by (simp add: filter_empty_conv) (metis is_makedirs.elims(2) is_save.simps(2))
  finally have "filter is_save evs = []" .
  with D(1) show "filter is_save (new_events w (report ERROR msg w1)) = []"
    by simp
  from D show "dirs w \<subseteq> dirs w1" by simp
qed

lemma create_structure_save_failure:
  assumes "create_physical_folders (wip_projects w props (version props))
             (fin_projects w props (version props)) (get_arch_folder w props) w = (Inr u, w1)"
    and "ops_error w (Save_as_mainfile (wip_file w props (version props)) False) = Some m"
  shows "create_structure_execute props w =
           (Inr CANCELLED, props,
            report ERROR (''Could not save file: '' @ m)
              (log_event (Save_as_mainfile (wip_file w props (version props)) False) w1))"
    and "dirs w1 =
           dirs w \<union> set (path_chain (wip_projects w props (version props)))
             \<union> set (path_chain (fin_projects w props (version props)))
             \<union> set (path_chain (get_arch_folder w props))"
proof -
  from create_physical_folders_effect [OF assms(1)] obtain D evs where
    D: "w1 = w\<lparr>dirs := D, log := log w @ evs\<rparr>"
      "D = dirs w \<union> set (path_chain (wip_projects w props (version props)))
             \<union> set (path_chain (fin_projects w props (version props)))
             \<union> set (path_chain (get_arch_folder w props))"
    by auto
  from D(1) assms(2)
  have "ops_error w1 (Save_as_mainfile (wip_file w props (version props)) False) = Some m"
    by simp
  with assms(1) show "create_structure_execute props w =
           (Inr CANCELLED, props,
            report ERROR (''Could not save file: '' @ m)
              (log_event (Save_as_mainfile (wip_file w props (version props)) False) w1))"
    by (simp add: create_structure_execute_steps save_as_mainfile_cases)
  from D show "dirs w1 =
           dirs w \<union> set (path_chain (wip_projects w props (version props)))
             \<union> set (path_chain (fin_projects w props (version props)))
             \<union> set (path_chain (get_arch_folder w props))"
    by simp
qed

lemma create_structure_props:
  assumes "create_structure_execute props w = (r, props', w')"
  shows "(r = Inr FINISHED \<and> props' = props\<lparr>is_generated := True\<rparr>) \<or>
         (r = Inr CANCELLED \<and> props' = props)"
proof -
  obtain r1 w1 where f: "create_physical_folders (wip_projects w props (version props))
             (fin_projects w props (version props)) (get_arch_folder w props) w = (r1, w1)"
    by (cases "create_physical_folders (wip_projects w props (version props))
             (fin_projects w props (version props)) (get_arch_folder w props) w")
  show ?thesis
  proof (cases r1)
    case (Inl e)
    with f create_structure_folder_failure(1) [of w props e w1] assms show ?thesis
      by auto
  next
    case (Inr u)
    with f assms show ?thesis
      by (auto simp: create_structure_execute_steps save_as_mainfile_cases
            split: option.splits)
  qed
qed

lemma wip_file_layout:
  "wip_file w props v =
     os_path_join (bpy_path_abspath w (base_path props))
       [folder_name props, ''v'' @ format_02d v, ''wip'', ''projects'',
        folder_name props @ ''_v'' @ format_02d v @ ''_wip.blend'']"
  by (simp add: wip_file_def wip_projects_def get_version_folder_def get_project_root_def
        os_path_join_def get_blend_filename_def folder_name_def)

lemma create_structure_success_effect:
  assumes "create_structure_execute props w = (Inr FINISHED, props', w')"
  shows "new_events w w' =
           [Makedirs (wip_projects w props (version props)),
            Makedirs (fin_projects w props (version props)),
            Makedirs (get_arch_folder w props),
            Save_as_mainfile (wip_file w props (version props)) False,
            Report INFO
              (''Workbench Initialized: '' @ get_blend_filename props (version props) ''wip'')]"
    and "dirs w' =
           dirs w \<union> set (path_chain (wip_projects w props (version props)))
             \<union> set (path_chain (fin_projects w props (version props)))
             \<union> set (path_chain (get_arch_folder w props))"
    and "files w' = insert (wip_file w props (version props)) (files w)"
    and "filepath w' = wip_file w props (version props)"
    and "props' = props\<lparr>is_generated := True\<rparr>"
proof -
  let ?wip = "wip_projects w props (version props)"
  let ?fin = "fin_projects w props (version props)"
  let ?arch = "get_arch_folder w props"
  let ?file = "wip_file w props (version props)"
  obtain r1 w1 where f: "create_physical_folders ?wip ?fin ?arch w = (r1, w1)"
    by (cases "create_physical_folders ?wip ?fin ?arch w")
  have "\<exists>u. r1 = Inr u"
  proof (cases r1)
    case (Inl e)
    with f create_structure_folder_failure(1) [of w props e w1] assms show ?thesis
      by auto
  next
    case (Inr u)
    then show ?thesis by simp
  qed
  then obtain u where r1: "r1 = Inr u" ..
  from create_physical_folders_effect [OF f] r1 obtain D evs where
    D: "w1 = w\<lparr>dirs := D, log := log w @ evs\<rparr>"
      "evs = [Makedirs ?wip, Makedirs ?fin, Makedirs ?arch]"
      "D = dirs w \<union> set (path_chain ?wip) \<union> set (path_chain ?fin) \<union> set (path_chain ?arch)"
    by auto
  have ok: "ops_error w (Save_as_mainfile ?file False) = None"
  proof (cases "ops_error w (Save_as_mainfile ?file False)")
    case None
    then show ?thesis .
  next
    case (Some m)
    from create_structure_save_failure(1) [of w props u w1 m] f r1 Some assms
    show ?thesis by simp
  qed
  from f r1 ok D(1) assms
  have w': "w' = report INFO
              (''Workbench Initialized: '' @ get_blend_filename props (version props) ''wip'')
              (w1\<lparr>files := insert ?file (files w1), filepath := ?file,
                  log := log w1 @ [Save_as_mainfile ?file False]\<rparr>)"
    and p': "props' = props\<lparr>is_generated := True\<rparr>"
    by (simp_all add: create_structure_execute_steps save_as_mainfile_cases)
  from w' D show "new_events w w' =
           [Makedirs ?wip, Makedirs ?fin, Makedirs ?arch, Save_as_mainfile ?file False,
            Report INFO
              (''Workbench Initialized: '' @ get_blend_filename props (version props) ''wip'')]"
    by simp
  from w' D show "dirs w' =
      dirs w \<union> set (path_chain ?wip) \<union> set (path_chain ?fin) \<union> set (path_chain ?arch)"
    by simp
  from w' D show "files w' = insert ?file (files w)" by simp
  from w' show "filepath w' = ?file" by simp
  from p' show "props' = props\<lparr>is_generated := True\<rparr>" .
qed

lemma create_physical_folders_present:
  assumes "set (path_chain a) \<union> set (path_chain b) \<union> set (path_chain c) \<subseteq> dirs w"
  shows "create_physical_folders a b c w =
           (Inr (), w\<lparr>log := log w @ [Makedirs a, Makedirs b, Makedirs c]\<rparr>)"
  using assms
  by (simp add: create_physical_folders_def and_then_def os_makedirs_present log_event_def)

lemma report_messages_distinct:
  "''Could not create folders: '' @ m1 \<noteq> ''Could not save file: '' @ m2"
  by simp

text \<open>
  Claim C4. If the creation of the folders raises, the operator reports the error
  \<open>Could not create folders: ...\<close>, returns \<open>CANCELLED\<close>, has requested no save and
  leaves the properties as they were. If the folders were created and the save raises,
  it reports the different error \<open>Could not save file: ...\<close>, returns
  \<open>CANCELLED\<close> and leaves the properties as they were, while the three folders (and
  every directory that existed before) are on disk. Whenever the operator does not
  finish, it was cancelled and \<open>is_generated\<close> has its prior value.
\<close>

theorem create_structure_failures:
  "(create_physical_folders (wip_projects w props (version props))
      (fin_projects w props (version props)) (get_arch_folder w props) w = (Inl e, w1) \<longrightarrow>
      (\<exists>m. e = OSError m \<and>
         create_structure_execute props w =
           (Inr CANCELLED, props, report ERROR (''Could not create folders: '' @ m) w1) \<and>
         filter is_save
           (new_events w (report ERROR (''Could not create folders: '' @ m) w1)) = []) \<and>
      dirs w \<subseteq> dirs w1) \<and>
   (create_physical_folders (wip_projects w props (version props))
      (fin_projects w props (version props)) (get_arch_folder w props) w = (Inr u, w2) \<and>
    ops_error w (Save_as_mainfile (wip_file w props (version props)) False) = Some m' \<longrightarrow>
      create_structure_execute props w =
        (Inr CANCELLED, props,
         report ERROR (''Could not save file: '' @ m')
           (log_event (Save_as_mainfile (wip_file w props (version props)) False) w2)) \<and>
      wip_projects w props (version props) \<in> dirs w2 \<and>
      fin_projects w props (version props) \<in> dirs w2 \<and>
      get_arch_folder w props \<in> dirs w2 \<and>
      dirs w \<subseteq> dirs w2) \<and>
   ''Could not create folders: '' @ m1 \<noteq> ''Could not save file: '' @ m2 \<and>
   (create_structure_execute props w = (r, props', w') \<and> r \<noteq> Inr FINISHED \<longrightarrow>
      r = Inr CANCELLED \<and> props' = props \<and> is_generated props' = is_generated props)"
proof (intro conjI impI)
  assume f: "create_physical_folders (wip_projects w props (version props))
      (fin_projects w props (version props)) (get_arch_folder w props) w = (Inl e, w1)"
  from create_structure_folder_failure(1) [OF f] obtain m where
    m: "e = OSError m" "create_structure_execute props w =
           (Inr CANCELLED, props, report ERROR (''Could not create folders: '' @ m) w1)"
    by auto
  with create_structure_folder_failure(2) [OF f]
  show "\<exists>m. e = OSError m \<and>
         create_structure_execute props w =
           (Inr CANCELLED, props, report ERROR (''Could not create folders: '' @ m) w1) \<and>
         filter is_save
           (new_events w (report ERROR (''Could not create folders: '' @ m) w1)) = []"
    by blast
  show "dirs w \<subseteq> dirs w1"
    by (rule create_structure_folder_failure(3) [OF f])
next
  assume h: "create_physical_folders (wip_projects w props (version props))
      (fin_projects w props (version props)) (get_arch_folder w props) w = (Inr u, w2) \<and>
    ops_error w (Save_as_mainfile (wip_file w props (version props)) False) = Some m'"
  note s = create_structure_save_failure [OF conjunct1 [OF h] conjunct2 [OF h]]
  show "create_structure_execute props w =
        (Inr CANCELLED, props,
         report ERROR (''Could not save file: '' @ m')
           (log_event (Save_as_mainfile (wip_file w props (version props)) False) w2))"
    by (rule s(1))
  show "wip_projects w props (version props) \<in> dirs w2"
    using s(2) path_chain_self [of "wip_projects w props (version props)"] by simp
  show "fin_projects w props (version props) \<in> dirs w2"
    using s(2) path_chain_self [of "fin_projects w props (version props)"] by simp
  show "get_arch_folder w props \<in> dirs w2"
    using s(2) path_chain_self [of "get_arch_folder w props"] by simp
  show "dirs w \<subseteq> dirs w2"
    using s(2) by auto
next
  show "''Could not create folders: '' @ m1 \<noteq> ''Could not save file: '' @ m2"
    by (rule report_messages_distinct)
next
  assume h: "create_structure_execute props w = (r, props', w') \<and> r \<noteq> Inr FINISHED"
  from create_structure_props [OF conjunct1 [OF h]] conjunct2 [OF h]
  show "r = Inr CANCELLED" and "props' = props" and "is_generated props' = is_generated props"
    by auto
qed

theorem create_structure_failures_witness:
  "(\<exists>w1. create_physical_folders (wip_projects fin_denied_world my_asset (version my_asset))
            (fin_projects fin_denied_world my_asset (version my_asset))
            (get_arch_folder fin_denied_world my_asset) fin_denied_world
            = (Inl (OSError ''Permission denied''), w1) \<and>
          create_structure_execute my_asset fin_denied_world =
            (Inr CANCELLED, my_asset,
             report ERROR ''Could not create folders: Permission denied'' w1) \<and>
          filter is_save
            (new_events fin_denied_world
               (report ERROR ''Could not create folders: Permission denied'' w1)) = []) \<and>
   (\<exists>w2. create_physical_folders (wip_projects save_failing_world my_asset (version my_asset))
            (fin_projects save_failing_world my_asset (version my_asset))
            (get_arch_folder save_failing_world my_asset) save_failing_world = (Inr (), w2) \<and>
          ops_error save_failing_world
            (Save_as_mainfile (wip_file save_failing_world my_asset (version my_asset)) False)
            = Some ''Cannot open file for writing'' \<and>
          create_structure_execute my_asset save_failing_world =
            (Inr CANCELLED, my_asset,
             report ERROR ''Could not save file: Cannot open file for writing''
               (log_event
                  (Save_as_mainfile
                     (wip_file save_failing_world my_asset (version my_asset)) False) w2)) \<and>
          ''/home/u/prp_My_Asset/v01/wip/projects'' \<in> dirs w2)"
proof
  let ?cf = "create_physical_folders (wip_projects fin_denied_world my_asset (version my_asset))
            (fin_projects fin_denied_world my_asset (version my_asset))
            (get_arch_folder fin_denied_world my_asset) fin_denied_world"
  have "fst ?cf = Inl (OSError ''Permission denied'')"
    by code_simp
  then obtain w1 where f: "?cf = (Inl (OSError ''Permission denied''), w1)"
    by (cases ?cf) auto
  note folder_case =
    create_structure_failures
      [of fin_denied_world my_asset "OSError ''Permission denied''" w1, THEN conjunct1]
  from folder_case f obtain m where
    m: "OSError ''Permission denied'' = OSError m"
      "create_structure_execute my_asset fin_denied_world =
         (Inr CANCELLED, my_asset, report ERROR (''Could not create folders: '' @ m) w1)"
      "filter is_save
         (new_events fin_denied_world
            (report ERROR (''Could not create folders: '' @ m) w1)) = []"
    by blast
  from m(1) have "m = ''Permission denied''" by simp
  with m(2,3) have
    "create_structure_execute my_asset fin_denied_world =
       (Inr CANCELLED, my_asset,
        report ERROR ''Could not create folders: Permission denied'' w1)"
    "filter is_save
       (new_events fin_denied_world
          (report ERROR ''Could not create folders: Permission denied'' w1)) = []"
    by simp_all
  with f show "\<exists>w1. ?cf = (Inl (OSError ''Permission denied''), w1) \<and>
          create_structure_execute my_asset fin_denied_world =
            (Inr CANCELLED, my_asset,
             report ERROR ''Could not create folders: Permission denied'' w1) \<and>
          filter is_save
            (new_events fin_denied_world
               (report ERROR ''Could not create folders: Permission denied'' w1)) = []"
    by blast
next
  let ?cf = "create_physical_folders (wip_projects save_failing_world my_asset (version my_asset))
            (fin_projects save_failing_world my_asset (version my_asset))
            (get_arch_folder save_failing_world my_asset) save_failing_world"
  let ?file = "wip_file save_failing_world my_asset (version my_asset)"
  have "fst ?cf = Inr ()"
    by code_simp
  then obtain w2 where f: "?cf = (Inr (), w2)"
    by (cases ?cf) auto
  have o: "ops_error save_failing_world (Save_as_mainfile ?file False)
             = Some ''Cannot open file for writing''"
    by (simp add: save_failing_world_def)
  have p: "wip_projects save_failing_world my_asset (version my_asset)
             = ''/home/u/prp_My_Asset/v01/wip/projects''"
    by (simp add: wip_projects_def path_eval my_asset_def)
  note save_case =
    create_structure_failures
      [of save_failing_world my_asset _ _ "()" w2 "''Cannot open file for writing''",
       THEN conjunct2, THEN conjunct1]
  from save_case f o have
    "create_structure_execute my_asset save_failing_world =
        (Inr CANCELLED, my_asset,
         report ERROR (''Could not save file: '' @ ''Cannot open file for writing'')
           (log_event (Save_as_mainfile ?file False) w2))"
    "wip_projects save_failing_world my_asset (version my_asset) \<in> dirs w2"
    by blast+
  then have
    "create_structure_execute my_asset save_failing_world =
        (Inr CANCELLED, my_asset,
         report ERROR ''Could not save file: Cannot open file for writing''
           (log_event (Save_as_mainfile ?file False) w2))"
    "''/home/u/prp_My_Asset/v01/wip/projects'' \<in> dirs w2"
    by (simp_all add: p)
  with f o show "\<exists>w2. ?cf = (Inr (), w2) \<and>
          ops_error save_failing_world (Save_as_mainfile ?file False)
            = Some ''Cannot open file for writing'' \<and>
          create_structure_execute my_asset save_failing_world =
            (Inr CANCELLED, my_asset,
             report ERROR ''Could not save file: Cannot open file for writing''
               (log_event (Save_as_mainfile ?file False) w2)) \<and>
          ''/home/u/prp_My_Asset/v01/wip/projects'' \<in> dirs w2"
    by blast
qed

text \<open>
  Claim C5. A run that finishes has asked for exactly three directories, in this order:
  the current version's \<open>wip/projects\<close> folder, its \<open>fin/projects\<close> folder and the
  archive root; afterwards the three exist, and the directories on disk are the former
  ones and these three with their ancestors. It has then saved the document at
  \<open>root/T_A/vVV/wip/projects/T_A_vVV_wip.blend\<close> (joined as \<^verbatim>\<open>os.path.join\<close> does),
  which is now the open document, and has set \<open>is_generated\<close>. Creation is
  create-if-absent: where the folders and their ancestors exist already, the three
  requests succeed and change nothing.
\<close>

theorem create_structure_success:
  "(create_structure_execute props w = (Inr FINISHED, props', w') \<longrightarrow>
      new_events w w' =
        [Makedirs (wip_projects w props (version props)),
         Makedirs (fin_projects w props (version props)),
         Makedirs (get_arch_folder w props),
         Save_as_mainfile (wip_file w props (version props)) False,
         Report INFO
           (''Workbench Initialized: '' @ get_blend_filename props (version props) ''wip'')] \<and>
      dirs w' =
        dirs w \<union> set (path_chain (wip_projects w props (version props)))
          \<union> set (path_chain (fin_projects w props (version props)))
          \<union> set (path_chain (get_arch_folder w props)) \<and>
      wip_projects w props (version props) \<in> dirs w' \<and>
      fin_projects w props (version props) \<in> dirs w' \<and>
      get_arch_folder w props \<in> dirs w' \<and>
      files w' = insert (wip_file w props (version props)) (files w) \<and>
      filepath w' = wip_file w props (version props) \<and>
      props' = props\<lparr>is_generated := True\<rparr>) \<and>
   wip_file w props (version props) =
     os_path_join (bpy_path_abspath w (base_path props))
       [folder_name props, ''v'' @ format_02d (version props), ''wip'', ''projects'',
        folder_name props @ ''_v'' @ format_02d (version props) @ ''_wip.blend''] \<and>
   (set (path_chain (wip_projects w props (version props)))
      \<union> set (path_chain (fin_projects w props (version props)))
      \<union> set (path_chain (get_arch_folder w props)) \<subseteq> dirs w \<longrightarrow>
    create_physical_folders (wip_projects w props (version props))
      (fin_projects w props (version props)) (get_arch_folder w props) w =
      (Inr (),
       w\<lparr>log := log w @
          [Makedirs (wip_projects w props (version props)),
           Makedirs (fin_projects w props (version props)),
           Makedirs (get_arch_folder w props)]\<rparr>))"
proof (intro conjI impI)
  assume run: "create_structure_execute props w = (Inr FINISHED, props', w')"
  note eff = create_structure_success_effect [OF run]
  show "new_events w w' =
        [Makedirs (wip_projects w props (version props)),
         Makedirs (fin_projects w props (version props)),
         Makedirs (get_arch_folder w props),
         Save_as_mainfile (wip_file w props (version props)) False,
         Report INFO
           (''Workbench Initialized: '' @ get_blend_filename props (version props) ''wip'')]"
    by (rule eff(1))
  show "dirs w' =
        dirs w \<union> set (path_chain (wip_projects w props (version props)))
          \<union> set (path_chain (fin_projects w props (version props)))
          \<union> set (path_chain (get_arch_folder w props))"
    by (rule eff(2))
  show "wip_projects w props (version props) \<in> dirs w'"
    using eff(2) path_chain_self [of "wip_projects w props (version props)"] by simp
  show "fin_projects w props (version props) \<in> dirs w'"
    using eff(2) path_chain_self [of "fin_projects w props (version props)"] by simp
  show "get_arch_folder w props \<in> dirs w'"
    using eff(2) path_chain_self [of "get_arch_folder w props"] by simp
  show "files w' = insert (wip_file w props (version props)) (files w)"
    by (rule eff(3))
  show "filepath w' = wip_file w props (version props)"
    by (rule eff(4))
  show "props' = props\<lparr>is_generated := True\<rparr>"
    by (rule eff(5))
next
  show "wip_file w props (version props) =
     os_path_join (bpy_path_abspath w (base_path props))
       [folder_name props, ''v'' @ format_02d (version props), ''wip'', ''projects'',
        folder_name props @ ''_v'' @ format_02d (version props) @ ''_wip.blend'']"
    by (rule wip_file_layout)
next
  assume "set (path_chain (wip_projects w props (version props)))
      \<union> set (path_chain (fin_projects w props (version props)))
      \<union> set (path_chain (get_arch_folder w props)) \<subseteq> dirs w"
  then show "create_physical_folders (wip_projects w props (version props))
      (fin_projects w props (version props)) (get_arch_folder w props) w =
      (Inr (),
       w\<lparr>log := log w @
          [Makedirs (wip_projects w props (version props)),
           Makedirs (fin_projects w props (version props)),
           Makedirs (get_arch_folder w props)]\<rparr>)"
    by (rule create_physical_folders_present)
qed

theorem create_structure_success_witness:
  "\<exists>props' w'.
     create_structure_execute my_asset quiet_world = (Inr FINISHED, props', w') \<and>
     is_generated props' \<and>
     filepath w' = ''/home/u/prp_My_Asset/v01/wip/projects/prp_My_Asset_v01_wip.blend'' \<and>
     ''/home/u/prp_My_Asset/v01/wip/projects/prp_My_Asset_v01_wip.blend'' \<in> files w' \<and>
     ''/home/u/prp_My_Asset/v01/wip/projects'' \<in> dirs w' \<and>
     ''/home/u/prp_My_Asset/v01/fin/projects'' \<in> dirs w' \<and>
     ''/home/u/prp_My_Asset/arch'' \<in> dirs w' \<and>
     set (path_chain (wip_projects w' my_asset (version my_asset)))
       \<union> set (path_chain (fin_projects w' my_asset (version my_asset)))
       \<union> set (path_chain (get_arch_folder w' my_asset)) \<subseteq> dirs w' \<and>
     fst (create_physical_folders (wip_projects w' my_asset (version my_asset))
            (fin_projects w' my_asset (version my_asset)) (get_arch_folder w' my_asset) w')
       = Inr ()"
proof -
  have "fst (create_structure_execute my_asset quiet_world) = Inr FINISHED"
    by code_simp
  then obtain props' w' where
    run: "create_structure_execute my_asset quiet_world = (Inr FINISHED, props', w')"
    by (cases "create_structure_execute my_asset quiet_world") auto
  have paths:
    "wip_projects quiet_world my_asset (version my_asset)
       = ''/home/u/prp_My_Asset/v01/wip/projects''"
    "fin_projects quiet_world my_asset (version my_asset)
       = ''/home/u/prp_My_Asset/v01/fin/projects''"
    "get_arch_folder quiet_world my_asset = ''/home/u/prp_My_Asset/arch''"
    "wip_file quiet_world my_asset (version my_asset)
       = ''/home/u/prp_My_Asset/v01/wip/projects/prp_My_Asset_v01_wip.blend''"
    "wip_projects w' my_asset (version my_asset) = ''/home/u/prp_My_Asset/v01/wip/projects''"
    "fin_projects w' my_asset (version my_asset) = ''/home/u/prp_My_Asset/v01/fin/projects''"
    "get_arch_folder w' my_asset = ''/home/u/prp_My_Asset/arch''"
    by (simp_all add: wip_projects_def fin_projects_def wip_file_def path_eval my_asset_def)
  from create_structure_success [of my_asset quiet_world props' w'] run
  have eff:
    "dirs w' =
        dirs quiet_world \<union> set (path_chain (wip_projects quiet_world my_asset (version my_asset)))
          \<union> set (path_chain (fin_projects quiet_world my_asset (version my_asset)))
          \<union> set (path_chain (get_arch_folder quiet_world my_asset)) \<and>
     wip_projects quiet_world my_asset (version my_asset) \<in> dirs w' \<and>
     fin_projects quiet_world my_asset (version my_asset) \<in> dirs w' \<and>
     get_arch_folder quiet_world my_asset \<in> dirs w' \<and>
     files w' = insert (wip_file quiet_world my_asset (version my_asset)) (files quiet_world) \<and>
     filepath w' = wip_file quiet_world my_asset (version my_asset) \<and>
     props' = my_asset\<lparr>is_generated := True\<rparr>"
    by blast
  note eff' = eff [unfolded paths]
  from eff' have first:
    "dirs w' =
        dirs quiet_world \<union> set (path_chain ''/home/u/prp_My_Asset/v01/wip/projects'')
          \<union> set (path_chain ''/home/u/prp_My_Asset/v01/fin/projects'')
          \<union> set (path_chain ''/home/u/prp_My_Asset/arch'')"
    "''/home/u/prp_My_Asset/v01/wip/projects'' \<in> dirs w'"
    "''/home/u/prp_My_Asset/v01/fin/projects'' \<in> dirs w'"
    "''/home/u/prp_My_Asset/arch'' \<in> dirs w'"
    "files w' = insert ''/home/u/prp_My_Asset/v01/wip/projects/prp_My_Asset_v01_wip.blend''
                  (files quiet_world)"
    "filepath w' = ''/home/u/prp_My_Asset/v01/wip/projects/prp_My_Asset_v01_wip.blend''"
    "props' = my_asset\<lparr>is_generated := True\<rparr>"
    by blast+
  have present:
    "set (path_chain (wip_projects w' my_asset (version my_asset)))
       \<union> set (path_chain (fin_projects w' my_asset (version my_asset)))
       \<union> set (path_chain (get_arch_folder w' my_asset)) \<subseteq> dirs w'"
    unfolding paths first(1) by blast
  with create_structure_success [of my_asset w' props' w', THEN conjunct2, THEN conjunct2]
  have "create_physical_folders (wip_projects w' my_asset (version my_asset))
            (fin_projects w' my_asset (version my_asset)) (get_arch_folder w' my_asset) w'
       = (Inr (),
       w'\<lparr>log := log w' @
          [Makedirs (wip_projects w' my_asset (version my_asset)),
           Makedirs (fin_projects w' my_asset (version my_asset)),
           Makedirs (get_arch_folder w' my_asset)]\<rparr>)"
    by blast
  then have again:
    "fst (create_physical_folders (wip_projects w' my_asset (version my_asset))
            (fin_projects w' my_asset (version my_asset)) (get_arch_folder w' my_asset) w')
       = Inr ()"
    by simp
  have gen: "is_generated props'" and saved:
    "''/home/u/prp_My_Asset/v01/wip/projects/prp_My_Asset_v01_wip.blend'' \<in> files w'"
    using first(5,7) by simp_all
  show ?thesis
    using run gen saved first(2,3,4,6) present again by blast
qed

section \<open>Version Iterator\<close>

lemma no_save_among_makedirs:
  "filter is_makedirs evs = evs \<Longrightarrow> filter is_save evs = []"
proof -
  assume h: "filter is_makedirs evs = evs"
  have "filter is_save (filter is_makedirs evs) = []"
    by (simp add: filter_empty_conv) (metis is_makedirs.elims(2) is_save.simps(2))
  with h show ?thesis by simp
qed

lemma setup_next_version_folders_effect:
  assumes "setup_next_version_folders a b w = (r, w1)"
  shows "\<exists>D evs. w1 = w\<lparr>dirs := D, log := log w @ evs\<rparr> \<and> dirs w \<subseteq> D \<and>
           D \<subseteq> dirs w \<union> set (path_chain a) \<union> set (path_chain b) \<and>
           filter is_makedirs evs = evs \<and> evs \<noteq> [] \<and> hd evs = Makedirs a \<and>
           (\<forall>u. r = Inr u \<longrightarrow>
              evs = [Makedirs a, Makedirs b] \<and>
              D = dirs w \<union> set (path_chain a) \<union> set (path_chain b)) \<and>
           (\<forall>e. r = Inl e \<longrightarrow> (\<exists>m. e = OSError m))"
proof -
  obtain ra wa where a: "os_makedirs a w = (ra, wa)" by (cases "os_makedirs a w")
  from os_makedirs_effect [OF a] obtain Da where
    Da: "wa = w\<lparr>dirs := Da, log := log w @ [Makedirs a]\<rparr>" "dirs w \<subseteq> Da"
      "Da \<subseteq> dirs w \<union> set (path_chain a)"
      "\<forall>u. ra = Inr u \<longrightarrow> Da = dirs w \<union> set (path_chain a)"
      "\<forall>e. ra = Inl e \<longrightarrow> (\<exists>m. e = OSError m)"
    by auto
  show ?thesis
  proof (cases ra)
    case (Inl e)
    with assms a have "r = Inl e" "w1 = wa"
      by (simp_all add: setup_next_version_folders_def and_then_def)
    with Da Inl show ?thesis
      by (intro exI [of _ Da] exI [of _ "[Makedirs a]"]) auto
  next
    case (Inr ua)
    obtain rb wb where b: "os_makedirs b wa = (rb, wb)" by (cases "os_makedirs b wa")
    from os_makedirs_effect [OF b] obtain Db where
      Db: "wb = wa\<lparr>dirs := Db, log := log wa @ [Makedirs b]\<rparr>" "dirs wa \<subseteq> Db"
        "Db \<subseteq> dirs wa \<union> set (path_chain b)"
        "\<forall>u. rb = Inr u \<longrightarrow> Db = dirs wa \<union> set (path_chain b)"
        "\<forall>e. rb = Inl e \<longrightarrow> (\<exists>m. e = OSError m)"
      by auto
    from assms a b Inr have rw: "r = rb" "w1 = wb"
      by (simp_all add: setup_next_version_folders_def and_then_def)
    show ?thesis
      by (intro exI [of _ Db] exI [of _ "[Makedirs a, Makedirs b]"])
         (use rw Da Db Inr in auto)
  qed
qed

lemma wipe_scene_step_effect:
  assumes "wipe_scene_step wipe_scene w = (r, w2)"
  shows "\<exists>obs sel evs. w2 = w\<lparr>objects := obs, selected := sel, log := log w @ evs\<rparr> \<and>
           filter is_save evs = [] \<and>
           (\<not> wipe_scene \<longrightarrow> evs = [] \<and> obs = objects w \<and> sel = selected w \<and> r = Inr ()) \<and>
           (wipe_scene \<longrightarrow> (\<forall>u. r = Inr u \<longrightarrow>
              evs = [Select_all, Object_delete, Orphans_purge] \<and> obs = {} \<and> sel = {}))"
proof (cases wipe_scene)
  case False
  with assms have "w2 = w" "r = Inr ()"
    by (simp_all add: wipe_scene_step_def)
  with False show ?thesis
    by (intro exI [of _ "objects w"] exI [of _ "selected w"] exI [of _ "[]"]) simp
next
  case True
  note defs = log_event_def wipe_scene_step_def and_then_def bpy_ops_object_select_all_def
    bpy_ops_object_delete_def bpy_ops_outliner_orphans_purge_def Let_def
  show ?thesis
  proof (cases "ops_error w Select_all")
    case (Some m)
    with True assms have "w2 = w\<lparr>log := log w @ [Select_all]\<rparr>" "r = Inl (RuntimeError m)"
      by (auto simp: defs)
    with True show ?thesis
      by (intro exI [of _ "objects w"] exI [of _ "selected w"]
          exI [of _ "[Select_all]"]) simp
  next
    case s: None
    show ?thesis
    proof (cases "ops_error w Object_delete")
      case (Some m)
      with True s assms
      have "w2 = w\<lparr>selected := objects w, log := log w @ [Select_all, Object_delete]\<rparr>"
        "r = Inl (RuntimeError m)"
        by (auto simp: defs)
      with True show ?thesis
        by (intro exI [of _ "objects w"] exI [of _ "objects w"]
          exI [of _ "[Select_all, Object_delete]"]) simp
    next
      case d: None
      from True s d assms
      have "w2 = w\<lparr>objects := {}, selected := {},
                    log := log w @ [Select_all, Object_delete, Orphans_purge]\<rparr>"
        by (auto simp: defs split: option.splits)
      with True show ?thesis
        by (intro exI [of _ "{}"] exI [of _ "{}"]
          exI [of _ "[Select_all, Object_delete, Orphans_purge]"]) simp
    qed
  qed
qed

lemma archive_and_iterate_execute_steps:
  "archive_and_iterate_execute wipe_scene props w =
     (case setup_next_version_folders (wip_projects w props (version props + 1))
             (fin_projects w props (version props + 1)) w of
        (Inl e, w1) \<Rightarrow> (Inl e, props, w1)
      | (Inr _, w1) \<Rightarrow>
     (case wipe_scene_step wipe_scene w1 of
        (Inl e, w2) \<Rightarrow> (Inl e, props, w2)
      | (Inr _, w2) \<Rightarrow>
     (case bpy_ops_wm_save_as_mainfile (wip_file w props (version props + 1)) False w2 of
        (Inl e, w3) \<Rightarrow> (Inl e, props, w3)
      | (Inr _, w3) \<Rightarrow>
     (case set_version props (version props + 1) of
        Inl e \<Rightarrow>
          (Inl e, props,
           move_old_version_to_archive (version props)
             (get_version_folder w props (version props)) (get_arch_folder w props) w3)
      | Inr props' \<Rightarrow>
          (Inr FINISHED, props',
           move_old_version_to_archive (version props)
             (get_version_folder w props (version props)) (get_arch_folder w props) w3)))))"
  by (simp add: archive_and_iterate_execute_def Let_def wip_projects_def fin_projects_def
        wip_file_def split: prod.splits sum.splits)

lemma shutil_move_guarded:
  assumes "os_path_exists w src" "\<not> os_path_exists w dst"
  shows "shutil_move src dst w =
           (case move_error w src dst of
              Some m \<Rightarrow> (Inl (OSError m), log_event (Move src dst) w)
            | None \<Rightarrow>
                (Inr (), w\<lparr>dirs := relocate src dst ` dirs w,
                           files := relocate src dst ` files w,
                           log := log w @ [Move src dst]\<rparr>))"
proof -
  from assms(2) have "dst \<notin> dirs w" by (simp add: os_path_exists_def)
  with assms(1) show ?thesis
    by (simp add: shutil_move_def Let_def log_event_def split: option.splits)
qed

lemma archive_old_missing:
  "\<not> os_path_exists w old \<Longrightarrow> move_old_version_to_archive v old arch w = w"
  by (simp add: move_old_version_to_archive_def)

lemma archive_dest_taken:
  "os_path_exists w old \<Longrightarrow> os_path_exists w (os_path_join arch [''v'' @ format_02d v]) \<Longrightarrow>
   move_old_version_to_archive v old arch w =
     report WARNING (''Archive for v'' @ format_02d v @ '' already exists.'') w"
  by (simp add: move_old_version_to_archive_def Let_def)

lemma archive_move_raises:
  "os_path_exists w old \<Longrightarrow> \<not> os_path_exists w (os_path_join arch [''v'' @ format_02d v]) \<Longrightarrow>
   move_error w old (os_path_join arch [''v'' @ format_02d v]) = Some m \<Longrightarrow>
   move_old_version_to_archive v old arch w =
     report WARNING (''Failed to move to archive: '' @ m)
       (log_event (Move old (os_path_join arch [''v'' @ format_02d v])) w)"
  by (simp add: move_old_version_to_archive_def Let_def shutil_move_guarded)

lemma archive_moved:
  "os_path_exists w old \<Longrightarrow> \<not> os_path_exists w (os_path_join arch [''v'' @ format_02d v]) \<Longrightarrow>
   move_error w old (os_path_join arch [''v'' @ format_02d v]) = None \<Longrightarrow>
   move_old_version_to_archive v old arch w =
     report INFO (''v'' @ format_02d v @ '' Archived.'')
       (w\<lparr>dirs := relocate old (os_path_join arch [''v'' @ format_02d v]) ` dirs w,
          files := relocate old (os_path_join arch [''v'' @ format_02d v]) ` files w,
          log := log w @ [Move old (os_path_join arch [''v'' @ format_02d v])]\<rparr>)"
  by (simp add: move_old_version_to_archive_def Let_def shutil_move_guarded)

lemma archive_not_moved_frame:
  assumes "\<not> os_path_exists w old \<or> os_path_exists w (os_path_join arch [''v'' @ format_02d v])
           \<or> move_error w old (os_path_join arch [''v'' @ format_02d v]) \<noteq> None"
  shows "dirs (move_old_version_to_archive v old arch w) = dirs w"
    and "files (move_old_version_to_archive v old arch w) = files w"
    and "os_path_exists (move_old_version_to_archive v old arch w) old = os_path_exists w old"
proof -
  show d: "dirs (move_old_version_to_archive v old arch w) = dirs w"
    using assms
    by (auto simp: move_old_version_to_archive_def Let_def shutil_move_guarded
          split: option.splits)
  show f: "files (move_old_version_to_archive v old arch w) = files w"
    using assms
    by (auto simp: move_old_version_to_archive_def Let_def shutil_move_guarded
          split: option.splits)
  from d f show "os_path_exists (move_old_version_to_archive v old arch w) old
                   = os_path_exists w old"
    by (simp add: os_path_exists_def)
qed

lemma set_version_in_range:
  "1 \<le> version props \<Longrightarrow> version props < 2 ^ 31 - 1 \<Longrightarrow>
   set_version props (version props + 1) = Inr (props\<lparr>version := version props + 1\<rparr>)"
  by (simp add: set_version_def)

lemma iterate_after_save:
  assumes "setup_next_version_folders (wip_projects w props (version props + 1))
             (fin_projects w props (version props + 1)) w = (Inr u1, w1)"
    and "wipe_scene_step wipe_scene w1 = (Inr u2, w2)"
    and "bpy_ops_wm_save_as_mainfile (wip_file w props (version props + 1)) False w2
           = (Inr u3, w3)"
    and "1 \<le> version props" "version props < 2 ^ 31 - 1"
  shows "archive_and_iterate_execute wipe_scene props w =
           (Inr FINISHED, props\<lparr>version := version props + 1\<rparr>,
            move_old_version_to_archive (version props)
              (get_version_folder w props (version props)) (get_arch_folder w props) w3)"
  using assms
  by (simp add: archive_and_iterate_execute_steps set_version_in_range)

lemma archive_and_iterate_execute_phases:
  "archive_and_iterate_execute wipe_scene props w =
     (case steps_before_archive wipe_scene props w of
        (Inl e, w3) \<Rightarrow> (Inl e, props, w3)
      | (Inr _, w3) \<Rightarrow>
          (case set_version props (version props + 1) of
             Inl e \<Rightarrow>
               (Inl e, props,
                move_old_version_to_archive (version props)
                  (get_version_folder w props (version props)) (get_arch_folder w props) w3)
           | Inr props' \<Rightarrow>
               (Inr FINISHED, props',
                move_old_version_to_archive (version props)
                  (get_version_folder w props (version props)) (get_arch_folder w props) w3)))"
  by (simp add: archive_and_iterate_execute_steps steps_before_archive_def and_then_def
        split: prod.splits sum.splits)

lemma iterate_past_save:
  assumes "steps_before_archive wipe_scene props w = (Inr u, w3)"
    and "1 \<le> version props" "version props < 2 ^ 31 - 1"
  shows "archive_and_iterate_execute wipe_scene props w =
           (Inr FINISHED, props\<lparr>version := version props + 1\<rparr>,
            move_old_version_to_archive (version props)
              (get_version_folder w props (version props)) (get_arch_folder w props) w3)"
  using assms
  by (simp add: archive_and_iterate_execute_phases set_version_in_range)

lemma iterate_props:
  assumes "archive_and_iterate_execute wipe_scene props w = (r, props', w')"
  shows "(r = Inr FINISHED \<and> props' = props\<lparr>version := max 1 (version props + 1)\<rparr>) \<or>
         ((\<exists>e. r = Inl e) \<and> props' = props)"
  using assms
  by (auto simp: archive_and_iterate_execute_phases set_version_def
        split: prod.splits sum.splits if_splits)

lemma finalize_props:
  "finalize_execute props w = (r, props', w') \<Longrightarrow> props' = props"
  by (auto simp: finalize_execute_def Let_def split: prod.splits sum.splits if_splits)

lemma run_operation_version:
  assumes "run_operation op props w = (r, props', w')"
  shows "version props \<le> version props' \<and>
         (version props' \<noteq> version props \<longrightarrow>
            (\<exists>wipe_scene. op = Archive_iterate wipe_scene) \<and> r = Inr FINISHED)"
proof (cases op)
  case Create_structure
  with assms create_structure_props [of props w r props' w'] show ?thesis by auto
next
  case Startup_dialog
  with assms create_structure_props [of props w r props' w'] show ?thesis
    by (auto simp: startup_dialog_execute_def)
next
  case (Archive_iterate wipe_scene)
  with assms iterate_props [of wipe_scene props w r props' w'] show ?thesis by auto
next
  case Finalize
  with assms finalize_props [of props w r props' w'] show ?thesis by auto
qed

lemma run_session_version:
  "version props \<le> version (fst (run_session ops (props, w)))"
proof (induction ops arbitrary: props w)
  case Nil
  show ?case by simp
next
  case (Cons x xs)
  obtain r props' w' where step: "run_operation x props w = (r, props', w')"
    by (cases "run_operation x props w") auto
  from run_operation_version [OF step] have "version props \<le> version props'" by simp
  also have "\<dots> \<le> version (fst (run_session xs (props', w')))" by (rule Cons.IH)
  finally show ?case using step by simp
qed

lemma example_paths:
  "format_02d 1 = ''01''"
  "os_path_join ''/home/u/prp_My_Asset/arch'' [''v01''] = ''/home/u/prp_My_Asset/arch/v01''"
  "get_version_folder w my_asset 1 = ''/home/u/prp_My_Asset/v01''"
  "get_version_folder w my_asset 2 = ''/home/u/prp_My_Asset/v02''"
  "get_arch_folder w my_asset = ''/home/u/prp_My_Asset/arch''"
  "version my_asset = 1"
  by (simp_all add: path_eval my_asset_def)

text \<open>
  Claim C2. Step 4 is a total function of the world: it raises nothing. Its outcome is
  fixed by the state it starts from. If the old version folder does not exist, the world
  is returned as it is: no move, no report. If it exists and the destination
  \<open>arch/vNN\<close> exists, no move is requested, one warning is reported and the file
  system is unchanged. If the move raises, one warning is reported and the file system
  is unchanged (a failing \<^verbatim>\<open>shutil.move\<close> is taken to have moved nothing). In the
  remaining case the folder is moved and an information message is reported. In the
  first three cases the old folder is where it was. Once steps 1 to 3 have succeeded,
  the operator finishes with the next version, whichever case applies.
\<close>

theorem archive_step_never_aborts:
  "(\<not> os_path_exists w old \<longrightarrow> move_old_version_to_archive v old arch w = w) \<and>
   (os_path_exists w old \<and> os_path_exists w (os_path_join arch [''v'' @ format_02d v]) \<longrightarrow>
      move_old_version_to_archive v old arch w =
        report WARNING (''Archive for v'' @ format_02d v @ '' already exists.'') w) \<and>
   (os_path_exists w old \<and> \<not> os_path_exists w (os_path_join arch [''v'' @ format_02d v]) \<and>
    move_error w old (os_path_join arch [''v'' @ format_02d v]) = Some m \<longrightarrow>
      move_old_version_to_archive v old arch w =
        report WARNING (''Failed to move to archive: '' @ m)
          (log_event (Move old (os_path_join arch [''v'' @ format_02d v])) w)) \<and>
   (os_path_exists w old \<and> \<not> os_path_exists w (os_path_join arch [''v'' @ format_02d v]) \<and>
    move_error w old (os_path_join arch [''v'' @ format_02d v]) = None \<longrightarrow>
      move_old_version_to_archive v old arch w =
        report INFO (''v'' @ format_02d v @ '' Archived.'')
          (w\<lparr>dirs := relocate old (os_path_join arch [''v'' @ format_02d v]) ` dirs w,
             files := relocate old (os_path_join arch [''v'' @ format_02d v]) ` files w,
             log := log w @ [Move old (os_path_join arch [''v'' @ format_02d v])]\<rparr>)) \<and>
   (\<not> os_path_exists w old \<or> os_path_exists w (os_path_join arch [''v'' @ format_02d v])
      \<or> move_error w old (os_path_join arch [''v'' @ format_02d v]) \<noteq> None \<longrightarrow>
      dirs (move_old_version_to_archive v old arch w) = dirs w \<and>
      files (move_old_version_to_archive v old arch w) = files w \<and>
      os_path_exists (move_old_version_to_archive v old arch w) old = os_path_exists w old) \<and>
   (steps_before_archive wipe_scene props w0 = (Inr u, w3) \<and>
    1 \<le> version props \<and> version props < 2 ^ 31 - 1 \<longrightarrow>
      archive_and_iterate_execute wipe_scene props w0 =
        (Inr FINISHED, props\<lparr>version := version props + 1\<rparr>,
         move_old_version_to_archive (version props)
           (get_version_folder w0 props (version props)) (get_arch_folder w0 props) w3))"
proof (intro conjI impI)
  assume "\<not> os_path_exists w old"
  then show "move_old_version_to_archive v old arch w = w"
    by (rule archive_old_missing)
next
  assume "os_path_exists w old \<and> os_path_exists w (os_path_join arch [''v'' @ format_02d v])"
  then show "move_old_version_to_archive v old arch w =
        report WARNING (''Archive for v'' @ format_02d v @ '' already exists.'') w"
    by (simp add: archive_dest_taken)
next
  assume "os_path_exists w old \<and> \<not> os_path_exists w (os_path_join arch [''v'' @ format_02d v]) \<and>
    move_error w old (os_path_join arch [''v'' @ format_02d v]) = Some m"
  then show "move_old_version_to_archive v old arch w =
        report WARNING (''Failed to move to archive: '' @ m)
          (log_event (Move old (os_path_join arch [''v'' @ format_02d v])) w)"
    by (simp add: archive_move_raises)
next
  assume "os_path_exists w old \<and> \<not> os_path_exists w (os_path_join arch [''v'' @ format_02d v]) \<and>
    move_error w old (os_path_join arch [''v'' @ format_02d v]) = None"
  then show "move_old_version_to_archive v old arch w =
        report INFO (''v'' @ format_02d v @ '' Archived.'')
          (w\<lparr>dirs := relocate old (os_path_join arch [''v'' @ format_02d v]) ` dirs w,
             files := relocate old (os_path_join arch [''v'' @ format_02d v]) ` files w,
             log := log w @ [Move old (os_path_join arch [''v'' @ format_02d v])]\<rparr>)"
    by (simp add: archive_moved)
next
  assume h: "\<not> os_path_exists w old \<or> os_path_exists w (os_path_join arch [''v'' @ format_02d v])
      \<or> move_error w old (os_path_join arch [''v'' @ format_02d v]) \<noteq> None"
  show "dirs (move_old_version_to_archive v old arch w) = dirs w"
    by (rule archive_not_moved_frame(1) [OF h])
  show "files (move_old_version_to_archive v old arch w) = files w"
    by (rule archive_not_moved_frame(2) [OF h])
  show "os_path_exists (move_old_version_to_archive v old arch w) old = os_path_exists w old"
    by (rule archive_not_moved_frame(3) [OF h])
next
  assume "steps_before_archive wipe_scene props w0 = (Inr u, w3) \<and>
    1 \<le> version props \<and> version props < 2 ^ 31 - 1"
  then show "archive_and_iterate_execute wipe_scene props w0 =
        (Inr FINISHED, props\<lparr>version := version props + 1\<rparr>,
         move_old_version_to_archive (version props)
           (get_version_folder w0 props (version props)) (get_arch_folder w0 props) w3)"
    by (simp add: iterate_past_save)
qed

theorem archive_step_never_aborts_witness:
  "move_old_version_to_archive 1 ''/home/u/prp_My_Asset/v01'' ''/home/u/prp_My_Asset/arch''
     quiet_world = quiet_world \<and>
   move_old_version_to_archive 1 ''/home/u/prp_My_Asset/v01'' ''/home/u/prp_My_Asset/arch''
     archive_taken_world
     = report WARNING ''Archive for v01 already exists.'' archive_taken_world \<and>
   move_old_version_to_archive 1 ''/home/u/prp_My_Asset/v01'' ''/home/u/prp_My_Asset/arch''
     move_failing_world
     = report WARNING ''Failed to move to archive: Permission denied''
         (log_event (Move ''/home/u/prp_My_Asset/v01'' ''/home/u/prp_My_Asset/arch/v01'')
            move_failing_world) \<and>
   os_path_exists
     (move_old_version_to_archive 1 ''/home/u/prp_My_Asset/v01'' ''/home/u/prp_My_Asset/arch''
        move_failing_world) ''/home/u/prp_My_Asset/v01'' \<and>
   move_old_version_to_archive 1 ''/home/u/prp_My_Asset/v01'' ''/home/u/prp_My_Asset/arch''
     versioned_world
     = report INFO ''v01 Archived.''
         (versioned_world
            \<lparr>dirs := relocate ''/home/u/prp_My_Asset/v01'' ''/home/u/prp_My_Asset/arch/v01''
                       ` dirs versioned_world,
             files := relocate ''/home/u/prp_My_Asset/v01'' ''/home/u/prp_My_Asset/arch/v01''
                       ` files versioned_world,
             log := log versioned_world
                      @ [Move ''/home/u/prp_My_Asset/v01'' ''/home/u/prp_My_Asset/arch/v01'']\<rparr>) \<and>
   (\<exists>w3. steps_before_archive True my_asset archive_taken_world = (Inr (), w3) \<and>
      archive_and_iterate_execute True my_asset archive_taken_world =
        (Inr FINISHED, my_asset\<lparr>version := 2\<rparr>,
         move_old_version_to_archive 1 ''/home/u/prp_My_Asset/v01''
           ''/home/u/prp_My_Asset/arch'' w3))"
proof (intro conjI)
  let ?old = "''/home/u/prp_My_Asset/v01''"
  let ?arch = "''/home/u/prp_My_Asset/arch''"
  let ?dest = "''/home/u/prp_My_Asset/arch/v01''"
  note step = archive_step_never_aborts [where old = ?old and v = 1 and arch = ?arch]
  have absent: "\<not> os_path_exists quiet_world ?old"
    by (simp add: os_path_exists_def quiet_world_def)
  from step [where w = quiet_world, THEN conjunct1] absent
  show "move_old_version_to_archive 1 ?old ?arch quiet_world = quiet_world"
    by blast
  have taken: "os_path_exists archive_taken_world ?old"
    "os_path_exists archive_taken_world (os_path_join ?arch [''v'' @ format_02d 1])"
    by (simp_all add: example_paths os_path_exists_def archive_taken_world_def
          versioned_world_def)
  from step [where w = archive_taken_world, THEN conjunct2, THEN conjunct1] taken
  have "move_old_version_to_archive 1 ?old ?arch archive_taken_world =
          report WARNING (''Archive for v'' @ format_02d 1 @ '' already exists.'')
            archive_taken_world"
    by blast
  then show "move_old_version_to_archive 1 ?old ?arch archive_taken_world
     = report WARNING ''Archive for v01 already exists.'' archive_taken_world"
    by (simp add: example_paths)
  have failing: "os_path_exists move_failing_world ?old"
    "\<not> os_path_exists move_failing_world (os_path_join ?arch [''v'' @ format_02d 1])"
    "move_error move_failing_world ?old (os_path_join ?arch [''v'' @ format_02d 1])
       = Some ''Permission denied''"
    by (simp_all add: example_paths os_path_exists_def move_failing_world_def
          versioned_world_def quiet_world_def)
  from step [where w = move_failing_world and m = "''Permission denied''",
            THEN conjunct2, THEN conjunct2, THEN conjunct1] failing
  have "move_old_version_to_archive 1 ?old ?arch move_failing_world =
          report WARNING (''Failed to move to archive: '' @ ''Permission denied'')
            (log_event (Move ?old (os_path_join ?arch [''v'' @ format_02d 1]))
               move_failing_world)"
    by blast
  then show "move_old_version_to_archive 1 ?old ?arch move_failing_world
     = report WARNING ''Failed to move to archive: Permission denied''
         (log_event (Move ?old ?dest) move_failing_world)"
    by (simp add: example_paths)
  from step [where w = move_failing_world,
            THEN conjunct2, THEN conjunct2, THEN conjunct2, THEN conjunct2, THEN conjunct1]
    failing
  show "os_path_exists (move_old_version_to_archive 1 ?old ?arch move_failing_world) ?old"
    by simp
  have moving: "os_path_exists versioned_world ?old"
    "\<not> os_path_exists versioned_world (os_path_join ?arch [''v'' @ format_02d 1])"
    "move_error versioned_world ?old (os_path_join ?arch [''v'' @ format_02d 1]) = None"
    by (simp_all add: example_paths os_path_exists_def versioned_world_def quiet_world_def)
  from step [where w = versioned_world,
            THEN conjunct2, THEN conjunct2, THEN conjunct2, THEN conjunct1] moving
  have "move_old_version_to_archive 1 ?old ?arch versioned_world =
        report INFO (''v'' @ format_02d 1 @ '' Archived.'')
          (versioned_world
             \<lparr>dirs := relocate ?old (os_path_join ?arch [''v'' @ format_02d 1])
                        ` dirs versioned_world,
              files := relocate ?old (os_path_join ?arch [''v'' @ format_02d 1])
                        ` files versioned_world,
              log := log versioned_world
                       @ [Move ?old (os_path_join ?arch [''v'' @ format_02d 1])]\<rparr>)"
    by blast
  then show "move_old_version_to_archive 1 ?old ?arch versioned_world
     = report INFO ''v01 Archived.''
         (versioned_world
            \<lparr>dirs := relocate ?old ?dest ` dirs versioned_world,
             files := relocate ?old ?dest ` files versioned_world,
             log := log versioned_world @ [Move ?old ?dest]\<rparr>)"
    by (simp add: example_paths)
  have "fst (steps_before_archive True my_asset archive_taken_world) = Inr ()"
    by code_simp
  then obtain w3 where s: "steps_before_archive True my_asset archive_taken_world = (Inr (), w3)"
    by (cases "steps_before_archive True my_asset archive_taken_world") auto
  have range: "1 \<le> version my_asset" "version my_asset < 2 ^ 31 - 1"
    by (simp_all add: my_asset_def)
  from archive_step_never_aborts
         [where wipe_scene = True and props = my_asset and ?w0.0 = archive_taken_world
            and u = "()" and ?w3.0 = w3,
          THEN conjunct2, THEN conjunct2, THEN conjunct2, THEN conjunct2, THEN conjunct2]
       s range
  have "archive_and_iterate_execute True my_asset archive_taken_world =
        (Inr FINISHED, my_asset\<lparr>version := version my_asset + 1\<rparr>,
         move_old_version_to_archive (version my_asset)
           (get_version_folder archive_taken_world my_asset (version my_asset))
           (get_arch_folder archive_taken_world my_asset) w3)"
    by blast
  then have "archive_and_iterate_execute True my_asset archive_taken_world =
        (Inr FINISHED, my_asset\<lparr>version := 2\<rparr>,
         move_old_version_to_archive 1 ?old ?arch w3)"
    by (simp add: example_paths)
  with s show "\<exists>w3. steps_before_archive True my_asset archive_taken_world = (Inr (), w3) \<and>
      archive_and_iterate_execute True my_asset archive_taken_world =
        (Inr FINISHED, my_asset\<lparr>version := 2\<rparr>,
         move_old_version_to_archive 1 ?old ?arch w3)"
    by blast
qed

text \<open>
  The fourth outcome is what makes the claim's ``exactly one of three'' fail: where the
  old folder exists, the destination is free and the move goes through, none of the three
  listed outcomes occurs. The folder is moved and an information message is reported.
\<close>

theorem archive_step_fourth_outcome:
  "os_path_exists versioned_world ''/home/u/prp_My_Asset/v01'' \<and>
   \<not> os_path_exists versioned_world ''/home/u/prp_My_Asset/arch/v01'' \<and>
   new_events versioned_world
     (move_old_version_to_archive 1 ''/home/u/prp_My_Asset/v01'' ''/home/u/prp_My_Asset/arch''
        versioned_world)
     = [Move ''/home/u/prp_My_Asset/v01'' ''/home/u/prp_My_Asset/arch/v01'',
        Report INFO ''v01 Archived.''] \<and>
   \<not> os_path_exists
       (move_old_version_to_archive 1 ''/home/u/prp_My_Asset/v01''
          ''/home/u/prp_My_Asset/arch'' versioned_world)
       ''/home/u/prp_My_Asset/v01'' \<and>
   os_path_exists
     (move_old_version_to_archive 1 ''/home/u/prp_My_Asset/v01''
        ''/home/u/prp_My_Asset/arch'' versioned_world)
     ''/home/u/prp_My_Asset/arch/v01/wip/projects''"
  by code_simp

text \<open>
  Claim C3. A run of the Version Iterator that finishes from version \<open>N \<ge> 1\<close> leaves
  version \<open>N + 1\<close>, in every world and so whatever the archive step met. No operator
  lowers the version: an operation leaves it unchanged unless it is a finished run of
  the Version Iterator, and over any session of operations the version never decreases.
\<close>

theorem version_only_advances:
  "(archive_and_iterate_execute wipe_scene props w = (Inr FINISHED, props', w') \<and>
    1 \<le> version props \<longrightarrow>
      props' = props\<lparr>version := version props + 1\<rparr> \<and> version props' = version props + 1) \<and>
   (run_operation op props w = (r, props', w') \<longrightarrow>
      version props \<le> version props' \<and>
      (version props' \<noteq> version props \<longrightarrow>
         (\<exists>wipe_scene. op = Archive_iterate wipe_scene) \<and> r = Inr FINISHED)) \<and>
   version props \<le> version (fst (run_session ops (props, w)))"
proof (intro conjI impI)
  assume h: "archive_and_iterate_execute wipe_scene props w = (Inr FINISHED, props', w') \<and>
    1 \<le> version props"
  with iterate_props [of wipe_scene props w "Inr FINISHED" props' w']
  show "props' = props\<lparr>version := version props + 1\<rparr>"
    by (simp add: max_def)
  then show "version props' = version props + 1" by simp
next
  assume h: "run_operation op props w = (r, props', w')"
  from run_operation_version [OF h] show "version props \<le> version props'" by simp
  assume "version props' \<noteq> version props"
  with run_operation_version [OF h]
  show "\<exists>wipe_scene. op = Archive_iterate wipe_scene" and "r = Inr FINISHED"
    by simp_all
next
  show "version props \<le> version (fst (run_session ops (props, w)))"
    by (rule run_session_version)
qed

theorem version_only_advances_witness:
  "(\<exists>props' w'. archive_and_iterate_execute True my_asset quiet_world
                   = (Inr FINISHED, props', w') \<and> version props' = 2) \<and>
   (\<exists>props' w'. archive_and_iterate_execute True my_asset versioned_world
                   = (Inr FINISHED, props', w') \<and> version props' = 2) \<and>
   (\<exists>props' w'. archive_and_iterate_execute True my_asset archive_taken_world
                   = (Inr FINISHED, props', w') \<and> version props' = 2) \<and>
   (\<exists>props' w'. archive_and_iterate_execute True my_asset move_failing_world
                   = (Inr FINISHED, props', w') \<and> version props' = 2) \<and>
   version (fst (snd (run_operation Finalize my_asset quiet_world))) = 1 \<and>
   1 \<le> version (fst (run_session
                        [Create_structure, Archive_iterate True, Finalize, Archive_iterate False]
                        (my_asset, quiet_world)))"
proof (intro conjI)
  have v: "1 \<le> version my_asset" "version my_asset = 1"
    by (simp_all add: my_asset_def)
  have "fst (archive_and_iterate_execute True my_asset quiet_world) = Inr FINISHED"
    by code_simp
  then obtain p1 w1 where
    r1: "archive_and_iterate_execute True my_asset quiet_world = (Inr FINISHED, p1, w1)"
    by (cases "archive_and_iterate_execute True my_asset quiet_world") auto
  from version_only_advances [of True my_asset quiet_world p1 w1, THEN conjunct1] r1 v
  have "version p1 = 2" by simp
  with r1 show "\<exists>props' w'. archive_and_iterate_execute True my_asset quiet_world
                   = (Inr FINISHED, props', w') \<and> version props' = 2"
    by blast
  have "fst (archive_and_iterate_execute True my_asset versioned_world) = Inr FINISHED"
    by code_simp
  then obtain p2 w2 where
    r2: "archive_and_iterate_execute True my_asset versioned_world = (Inr FINISHED, p2, w2)"
    by (cases "archive_and_iterate_execute True my_asset versioned_world") auto
  from version_only_advances [of True my_asset versioned_world p2 w2, THEN conjunct1] r2 v
  have "version p2 = 2" by simp
  with r2 show "\<exists>props' w'. archive_and_iterate_execute True my_asset versioned_world
                   = (Inr FINISHED, props', w') \<and> version props' = 2"
    by blast
  have "fst (archive_and_iterate_execute True my_asset archive_taken_world) = Inr FINISHED"
    by code_simp
  then obtain p3 w3 where
    r3: "archive_and_iterate_execute True my_asset archive_taken_world = (Inr FINISHED, p3, w3)"
    by (cases "archive_and_iterate_execute True my_asset archive_taken_world") auto
  from version_only_advances [of True my_asset archive_taken_world p3 w3, THEN conjunct1] r3 v
  have "version p3 = 2" by simp
  with r3 show "\<exists>props' w'. archive_and_iterate_execute True my_asset archive_taken_world
                   = (Inr FINISHED, props', w') \<and> version props' = 2"
    by blast
  have "fst (archive_and_iterate_execute True my_asset move_failing_world) = Inr FINISHED"
    by code_simp
  then obtain p4 w4 where
    r4: "archive_and_iterate_execute True my_asset move_failing_world = (Inr FINISHED, p4, w4)"
    by (cases "archive_and_iterate_execute True my_asset move_failing_world") auto
  from version_only_advances [of True my_asset move_failing_world p4 w4, THEN conjunct1] r4 v
  have "version p4 = 2" by simp
  with r4 show "\<exists>props' w'. archive_and_iterate_execute True my_asset move_failing_world
                   = (Inr FINISHED, props', w') \<and> version props' = 2"
    by blast
  obtain r5 p5 w5 where r5: "run_operation Finalize my_asset quiet_world = (r5, p5, w5)"
    by (cases "run_operation Finalize my_asset quiet_world") auto
  from version_only_advances
         [where op = Finalize and props = my_asset and w = quiet_world and r = r5
            and props' = p5 and w' = w5, THEN conjunct2, THEN conjunct1] r5
  have "version p5 = version my_asset" by auto
  with r5 v show "version (fst (snd (run_operation Finalize my_asset quiet_world))) = 1"
    by simp
  from version_only_advances
         [where props = my_asset and w = quiet_world
            and ops = "[Create_structure, Archive_iterate True, Finalize, Archive_iterate False]",
          THEN conjunct2, THEN conjunct2] v
  show "1 \<le> version (fst (run_session
                        [Create_structure, Archive_iterate True, Finalize, Archive_iterate False]
                        (my_asset, quiet_world)))"
    by simp
qed

lemma archive_log:
  "\<exists>evs. log (move_old_version_to_archive v old arch w) = log w @ evs \<and>
         filter is_save evs = [] \<and> filter is_makedirs evs = []"
proof (cases "os_path_exists w old")
  case False
  then show ?thesis by (simp add: archive_old_missing)
next
  case True
  show ?thesis
  proof (cases "os_path_exists w (os_path_join arch [''v'' @ format_02d v])")
    case taken: True
    with True show ?thesis by (simp add: archive_dest_taken)
  next
    case free: False
    show ?thesis
    proof (cases "move_error w old (os_path_join arch [''v'' @ format_02d v])")
      case None
      with True free show ?thesis by (simp add: archive_moved)
    next
      case (Some m)
      with True free show ?thesis by (simp add: archive_move_raises)
    qed
  qed
qed

lemma iterate_folders_fail:
  assumes "setup_next_version_folders (wip_projects w props (version props + 1))
             (fin_projects w props (version props + 1)) w = (Inl e, w1)"
  shows "archive_and_iterate_execute wipe_scene props w = (Inl e, props, w1)"
    and "filter is_save (new_events w w1) = []"
proof -
  from assms show "archive_and_iterate_execute wipe_scene props w = (Inl e, props, w1)"
    by (simp add: archive_and_iterate_execute_steps)
  from setup_next_version_folders_effect [OF assms] obtain D evs where
    "w1 = w\<lparr>dirs := D, log := log w @ evs\<rparr>" "filter is_makedirs evs = evs"
    by auto
  then show "filter is_save (new_events w w1) = []"
    by (simp add: no_save_among_makedirs)
qed

lemma iterate_wipe_fails:
  assumes "setup_next_version_folders (wip_projects w props (version props + 1))
             (fin_projects w props (version props + 1)) w = (Inr u1, w1)"
    and "wipe_scene_step wipe_scene w1 = (Inl e, w2)"
  shows "archive_and_iterate_execute wipe_scene props w = (Inl e, props, w2)"
    and "filter is_save (new_events w w2) = []"
proof -
  from assms show "archive_and_iterate_execute wipe_scene props w = (Inl e, props, w2)"
    by (simp add: archive_and_iterate_execute_steps)
  from setup_next_version_folders_effect [OF assms(1)] obtain D evs where
    w1: "w1 = w\<lparr>dirs := D, log := log w @ evs\<rparr>" "filter is_makedirs evs = evs"
    by auto
  from wipe_scene_step_effect [OF assms(2)] obtain obs sel evs2 where
    w2: "w2 = w1\<lparr>objects := obs, selected := sel, log := log w1 @ evs2\<rparr>"
      "filter is_save evs2 = []"
    by auto
  from w1 w2 have "log w2 = log w @ (evs @ evs2)" by simp
  then have "new_events w w2 = evs @ evs2" by (rule new_events_append)
  with w1(2) w2(2) show "filter is_save (new_events w w2) = []"
    by (simp add: no_save_among_makedirs)
qed

lemma iterate_save_attempted:
  assumes "setup_next_version_folders (wip_projects w props (version props + 1))
             (fin_projects w props (version props + 1)) w = (Inr u1, w1)"
    and "wipe_scene_step wipe_scene w1 = (Inr u2, w2)"
    and "archive_and_iterate_execute wipe_scene props w = (r, props', w')"
  shows "filter is_save (new_events w w') =
           [Save_as_mainfile (wip_file w props (version props + 1)) False]"
proof -
  let ?save = "Save_as_mainfile (wip_file w props (version props + 1)) False"
  from setup_next_version_folders_effect [OF assms(1)] obtain D evs where
    w1: "w1 = w\<lparr>dirs := D, log := log w @ evs\<rparr>" "filter is_makedirs evs = evs"
    by auto
  from wipe_scene_step_effect [OF assms(2)] obtain obs sel evs2 where
    w2: "w2 = w1\<lparr>objects := obs, selected := sel, log := log w1 @ evs2\<rparr>"
      "filter is_save evs2 = []"
    by auto
  obtain r3 w3 where s: "bpy_ops_wm_save_as_mainfile (wip_file w props (version props + 1))
                           False w2 = (r3, w3)"
    by (cases "bpy_ops_wm_save_as_mainfile (wip_file w props (version props + 1)) False w2")
  then have l3: "log w3 = log w2 @ [?save]"
    by (auto simp: save_as_mainfile_cases split: option.splits)
  have "\<exists>evs4. log w' = log w3 @ evs4 \<and> filter is_save evs4 = []"
  proof (cases r3)
    case (Inl e)
    with assms s have "w' = w3" by (simp add: archive_and_iterate_execute_steps)
    then show ?thesis by simp
  next
    case (Inr u3)
    with assms s have "w' = move_old_version_to_archive (version props)
             (get_version_folder w props (version props)) (get_arch_folder w props) w3"
      by (auto simp: archive_and_iterate_execute_steps split: sum.splits)
    with archive_log [of "version props" "get_version_folder w props (version props)"
                        "get_arch_folder w props" w3]
    show ?thesis by auto
  qed
  then obtain evs4 where e4: "log w' = log w3 @ evs4" "filter is_save evs4 = []" by auto
  from w1 w2 l3 e4 have "log w' = log w @ (evs @ evs2 @ [?save] @ evs4)" by simp
  then have "new_events w w' = evs @ evs2 @ [?save] @ evs4" by (rule new_events_append)
  with w1(2) w2(2) e4(2) show ?thesis
    by (simp add: no_save_among_makedirs)
qed

text \<open>
  Claim C1, as the code has it. The save of step 3 is not guarded by any test: in every
  run in which the folders of the next version are created and the wipe, when selected,
  goes through, the operator requests exactly one save, of the next version's \<open>wip\<close>
  file, whether the scene was wiped or not. Steps 1 and 2 are not wrapped in any handler,
  so when the folder creation or the wipe raises, the operator stops there: it requests
  no save, leaves the properties as they were and does not finish.
\<close>

theorem iterate_save_after_folders_and_wipe:
  "(setup_next_version_folders (wip_projects w props (version props + 1))
      (fin_projects w props (version props + 1)) w = (Inr u1, w1) \<and>
    wipe_scene_step wipe_scene w1 = (Inr u2, w2) \<and>
    archive_and_iterate_execute wipe_scene props w = (r, props', w') \<longrightarrow>
      filter is_save (new_events w w') =
        [Save_as_mainfile (wip_file w props (version props + 1)) False]) \<and>
   (setup_next_version_folders (wip_projects w props (version props + 1))
      (fin_projects w props (version props + 1)) w = (Inl e, w1) \<and>
    archive_and_iterate_execute wipe_scene props w = (r, props', w') \<longrightarrow>
      filter is_save (new_events w w') = [] \<and> props' = props \<and> r \<noteq> Inr FINISHED) \<and>
   (setup_next_version_folders (wip_projects w props (version props + 1))
      (fin_projects w props (version props + 1)) w = (Inr u1, w1) \<and>
    wipe_scene_step wipe_scene w1 = (Inl e, w2) \<and>
    archive_and_iterate_execute wipe_scene props w = (r, props', w') \<longrightarrow>
      filter is_save (new_events w w') = [] \<and> props' = props \<and> r \<noteq> Inr FINISHED)"
proof (intro conjI impI)
  assume "setup_next_version_folders (wip_projects w props (version props + 1))
      (fin_projects w props (version props + 1)) w = (Inr u1, w1) \<and>
    wipe_scene_step wipe_scene w1 = (Inr u2, w2) \<and>
    archive_and_iterate_execute wipe_scene props w = (r, props', w')"
  then show "filter is_save (new_events w w') =
        [Save_as_mainfile (wip_file w props (version props + 1)) False]"
    using iterate_save_attempted by blast
next
  assume h: "setup_next_version_folders (wip_projects w props (version props + 1))
      (fin_projects w props (version props + 1)) w = (Inl e, w1) \<and>
    archive_and_iterate_execute wipe_scene props w = (r, props', w')"
  note f = iterate_folders_fail(1) [OF conjunct1 [OF h], where wipe_scene = wipe_scene]
    iterate_folders_fail(2) [OF conjunct1 [OF h]]
  from f(1) h have eq: "r = Inl e" "props' = props" "w' = w1" by simp_all
  from eq f(2) show "filter is_save (new_events w w') = []" by simp
  from eq show "props' = props" by simp
  from eq show "r \<noteq> Inr FINISHED" by simp
next
  assume h: "setup_next_version_folders (wip_projects w props (version props + 1))
      (fin_projects w props (version props + 1)) w = (Inr u1, w1) \<and>
    wipe_scene_step wipe_scene w1 = (Inl e, w2) \<and>
    archive_and_iterate_execute wipe_scene props w = (r, props', w')"
  note f = iterate_wipe_fails [OF conjunct1 [OF h] conjunct1 [OF conjunct2 [OF h]]]
  from f(1) h have eq: "r = Inl e" "props' = props" "w' = w2" by simp_all
  from eq f(2) show "filter is_save (new_events w w') = []" by simp
  from eq show "props' = props" by simp
  from eq show "r \<noteq> Inr FINISHED" by simp
qed

theorem iterate_save_after_folders_and_wipe_witness:
  "filter is_save
     (new_events quiet_world (snd (snd (archive_and_iterate_execute True my_asset quiet_world))))
     = [Save_as_mainfile ''/home/u/prp_My_Asset/v02/wip/projects/prp_My_Asset_v02_wip.blend''
          False] \<and>
   filter is_save
     (new_events quiet_world (snd (snd (archive_and_iterate_execute False my_asset quiet_world))))
     = [Save_as_mainfile ''/home/u/prp_My_Asset/v02/wip/projects/prp_My_Asset_v02_wip.blend''
          False] \<and>
   filter is_save
     (new_events next_denied_world
        (snd (snd (archive_and_iterate_execute True my_asset next_denied_world)))) = [] \<and>
   fst (snd (archive_and_iterate_execute True my_asset next_denied_world)) = my_asset \<and>
   filter is_save
     (new_events wipe_failing_world
        (snd (snd (archive_and_iterate_execute True my_asset wipe_failing_world)))) = [] \<and>
   fst (snd (archive_and_iterate_execute True my_asset wipe_failing_world)) = my_asset"
proof (intro conjI)
  have saved_at: "wip_file w my_asset (version my_asset + 1)
                = ''/home/u/prp_My_Asset/v02/wip/projects/prp_My_Asset_v02_wip.blend''" for w
    by (simp add: wip_file_def wip_projects_def path_eval my_asset_def)
  let ?folders = "\<lambda>w. setup_next_version_folders (wip_projects w my_asset (version my_asset + 1))
                       (fin_projects w my_asset (version my_asset + 1)) w"
  let ?run = "\<lambda>b w. archive_and_iterate_execute b my_asset w"
  have run: "?run b w = (fst (?run b w), fst (snd (?run b w)), snd (snd (?run b w)))" for b w
    by simp
  \<comment> \<open>steps 1 and 2 succeed, with and without the wipe\<close>
  have "fst (?folders quiet_world) = Inr ()" by code_simp
  then have s1: "?folders quiet_world = (Inr (), snd (?folders quiet_world))"
    by (cases "?folders quiet_world") auto
  have "fst (wipe_scene_step True (snd (?folders quiet_world))) = Inr ()" by code_simp
  then have s2: "wipe_scene_step True (snd (?folders quiet_world))
                   = (Inr (), snd (wipe_scene_step True (snd (?folders quiet_world))))"
    by (cases "wipe_scene_step True (snd (?folders quiet_world))") auto
  have "fst (wipe_scene_step False (snd (?folders quiet_world))) = Inr ()" by code_simp
  then have s2': "wipe_scene_step False (snd (?folders quiet_world))
                   = (Inr (), snd (wipe_scene_step False (snd (?folders quiet_world))))"
    by (cases "wipe_scene_step False (snd (?folders quiet_world))") auto
  from iterate_save_after_folders_and_wipe
         [where w = quiet_world and props = my_asset and wipe_scene = True and ?u1.0 = "()"
            and ?w1.0 = "snd (?folders quiet_world)" and ?u2.0 = "()"
            and ?w2.0 = "snd (wipe_scene_step True (snd (?folders quiet_world)))"
            and r = "fst (?run True quiet_world)" and props' = "fst (snd (?run True quiet_world))"
            and w' = "snd (snd (?run True quiet_world))", THEN conjunct1]
       s1 s2 run [of True quiet_world]
  have "filter is_save (new_events quiet_world (snd (snd (?run True quiet_world)))) =
          [Save_as_mainfile (wip_file quiet_world my_asset (version my_asset + 1)) False]"
    by blast
  then show "filter is_save (new_events quiet_world (snd (snd (?run True quiet_world))))
     = [Save_as_mainfile ''/home/u/prp_My_Asset/v02/wip/projects/prp_My_Asset_v02_wip.blend''
          False]"
    by (simp only: saved_at)
  from iterate_save_after_folders_and_wipe
         [where w = quiet_world and props = my_asset and wipe_scene = False and ?u1.0 = "()"
            and ?w1.0 = "snd (?folders quiet_world)" and ?u2.0 = "()"
            and ?w2.0 = "snd (wipe_scene_step False (snd (?folders quiet_world)))"
            and r = "fst (?run False quiet_world)" and props' = "fst (snd (?run False quiet_world))"
            and w' = "snd (snd (?run False quiet_world))", THEN conjunct1]
       s1 s2' run [of False quiet_world]
  have "filter is_save (new_events quiet_world (snd (snd (?run False quiet_world)))) =
          [Save_as_mainfile (wip_file quiet_world my_asset (version my_asset + 1)) False]"
    by blast
  then show "filter is_save (new_events quiet_world (snd (snd (?run False quiet_world))))
     = [Save_as_mainfile ''/home/u/prp_My_Asset/v02/wip/projects/prp_My_Asset_v02_wip.blend''
          False]"
    by (simp only: saved_at)
  \<comment> \<open>the folder creation raises\<close>
  have "fst (?folders next_denied_world) = Inl (OSError ''Permission denied'')" by code_simp
  then have d1: "?folders next_denied_world
                   = (Inl (OSError ''Permission denied''), snd (?folders next_denied_world))"
    by (cases "?folders next_denied_world") auto
  from iterate_save_after_folders_and_wipe
         [where w = next_denied_world and props = my_asset and wipe_scene = True
            and e = "OSError ''Permission denied''" and ?w1.0 = "snd (?folders next_denied_world)"
            and r = "fst (?run True next_denied_world)"
            and props' = "fst (snd (?run True next_denied_world))"
            and w' = "snd (snd (?run True next_denied_world))", THEN conjunct2, THEN conjunct1]
       d1 run [of True next_denied_world]
  show "filter is_save
          (new_events next_denied_world (snd (snd (?run True next_denied_world)))) = []"
    and "fst (snd (?run True next_denied_world)) = my_asset"
    by blast+
  \<comment> \<open>the wipe raises\<close>
  have "fst (?folders wipe_failing_world) = Inr ()" by code_simp
  then have f1: "?folders wipe_failing_world = (Inr (), snd (?folders wipe_failing_world))"
    by (cases "?folders wipe_failing_world") auto
  have "fst (wipe_scene_step True (snd (?folders wipe_failing_world)))
          = Inl (RuntimeError ''context is incorrect'')"
    by code_simp
  then have f2: "wipe_scene_step True (snd (?folders wipe_failing_world))
                   = (Inl (RuntimeError ''context is incorrect''),
                      snd (wipe_scene_step True (snd (?folders wipe_failing_world))))"
    by (cases "wipe_scene_step True (snd (?folders wipe_failing_world))") auto
  from iterate_save_after_folders_and_wipe
         [where w = wipe_failing_world and props = my_asset and wipe_scene = True
            and ?u1.0 = "()" and ?w1.0 = "snd (?folders wipe_failing_world)"
            and e = "RuntimeError ''context is incorrect''"
            and ?w2.0 = "snd (wipe_scene_step True (snd (?folders wipe_failing_world)))"
            and r = "fst (?run True wipe_failing_world)"
            and props' = "fst (snd (?run True wipe_failing_world))"
            and w' = "snd (snd (?run True wipe_failing_world))", THEN conjunct2, THEN conjunct2]
       f1 f2 run [of True wipe_failing_world]
  show "filter is_save
          (new_events wipe_failing_world (snd (snd (?run True wipe_failing_world)))) = []"
    and "fst (snd (?run True wipe_failing_world)) = my_asset"
    by blast+
qed

text \<open>
  The claim as worded fails. When a directory of the next version cannot be created, the
  \<^verbatim>\<open>OSError\<close> leaves \<^verbatim>\<open>execute\<close>, no save has been requested and nothing has been
  reported; when the host refuses to delete the objects, the \<^verbatim>\<open>RuntimeError\<close> does the
  same.
\<close>

theorem iterate_failure_escapes_without_save:
  "fst (archive_and_iterate_execute True my_asset next_denied_world)
     = Inl (OSError ''Permission denied'') \<and>
   filter is_save (log (snd (snd (archive_and_iterate_execute True my_asset next_denied_world))))
     = [] \<and>
   filter is_report (log (snd (snd (archive_and_iterate_execute True my_asset next_denied_world))))
     = [] \<and>
   fst (archive_and_iterate_execute True my_asset wipe_failing_world)
     = Inl (RuntimeError ''context is incorrect'') \<and>
   filter is_save (log (snd (snd (archive_and_iterate_execute True my_asset wipe_failing_world))))
     = [] \<and>
   filter is_report (log (snd (snd (archive_and_iterate_execute True my_asset wipe_failing_world))))
     = []"
  by code_simp

section \<open>Finalizer\<close>

lemma finalize_execute_steps:
  "finalize_execute props w =
     (case (if \<not> os_path_exists w (fin_projects w props (version props))
            then os_makedirs (fin_projects w props (version props)) w else (Inr (), w)) of
        (Inl e, w1) \<Rightarrow> (Inl e, props, w1)
      | (Inr _, w1) \<Rightarrow>
          (case bpy_ops_wm_save_as_mainfile (fin_file w props (version props)) True w1 of
             (Inl e, w2) \<Rightarrow> (Inl e, props, w2)
           | (Inr _, w2) \<Rightarrow>
               (Inr FINISHED, props,
                report INFO
                  (''Published Final: '' @ get_blend_filename props (version props) ''fin'')
                  w2)))"
  by (simp add: finalize_execute_def Let_def fin_projects_def fin_file_def
        split: prod.splits sum.splits)

lemma ensure_fin_folder_effect:
  assumes "(if \<not> os_path_exists w d then os_makedirs d w else (Inr (), w)) = (r, w1)"
  shows "\<exists>D evs. w1 = w\<lparr>dirs := D, log := log w @ evs\<rparr> \<and> dirs w \<subseteq> D \<and>
           filter is_save evs = [] \<and>
           (\<forall>u. r = Inr u \<longrightarrow> os_path_exists w1 d)"
proof (cases "os_path_exists w d")
  case True
  with assms have "w1 = w" "r = Inr ()" by simp_all
  with True show ?thesis
    by (intro exI [of _ "dirs w"] exI [of _ "[]"]) simp
next
  case False
  with assms have m: "os_makedirs d w = (r, w1)" by simp
  from os_makedirs_effect [OF m] obtain D where
    D: "w1 = w\<lparr>dirs := D, log := log w @ [Makedirs d]\<rparr>" "dirs w \<subseteq> D"
      "\<forall>u. r = Inr u \<longrightarrow> D = dirs w \<union> set (path_chain d)"
    by auto
  show ?thesis
    by (intro exI [of _ D] exI [of _ "[Makedirs d]"])
       (use D path_chain_self [of d] in \<open>auto simp: os_path_exists_def\<close>)
qed

lemma finalize_effect:
  assumes "finalize_execute props w = (r, props', w')"
  shows "props' = props"
    and "filepath w' = filepath w"
    and "set (filter is_save (new_events w w'))
           \<subseteq> {Save_as_mainfile (fin_file w props (version props)) True}"
    and "r = Inr FINISHED \<Longrightarrow>
           filter is_save (new_events w w')
             = [Save_as_mainfile (fin_file w props (version props)) True] \<and>
           fin_file w props (version props) \<in> files w' \<and>
           os_path_exists w' (fin_projects w props (version props))"
proof -
  let ?fin = "fin_projects w props (version props)"
  let ?file = "fin_file w props (version props)"
  obtain r1 w1 where
    f: "(if \<not> os_path_exists w ?fin then os_makedirs ?fin w else (Inr (), w)) = (r1, w1)"
    by (cases "if \<not> os_path_exists w ?fin then os_makedirs ?fin w else (Inr (), w)")
  from ensure_fin_folder_effect [OF f] obtain D evs where
    D: "w1 = w\<lparr>dirs := D, log := log w @ evs\<rparr>" "filter is_save evs = []"
      "\<forall>u. r1 = Inr u \<longrightarrow> os_path_exists w1 ?fin"
    by auto
  show "props' = props" using assms by (rule finalize_props)
  have shape:
    "(\<exists>e. r = Inl e \<and> w' = w1 \<and> r1 = Inl e) \<or>
     (\<exists>m. r = Inl (RuntimeError m) \<and> w' = log_event (Save_as_mainfile ?file True) w1) \<or>
     (r = Inr FINISHED \<and> (\<exists>u. r1 = Inr u) \<and>
      w' = report INFO
             (''Published Final: '' @ get_blend_filename props (version props) ''fin'')
             (w1\<lparr>files := insert ?file (files w1),
                 log := log w1 @ [Save_as_mainfile ?file True]\<rparr>))"
    using assms f
    by (cases r1)
       (auto simp: finalize_execute_steps save_as_mainfile_cases split: option.splits)
  from shape D(1) show "filepath w' = filepath w"
    by auto
  from shape D(1,2)
  show "set (filter is_save (new_events w w')) \<subseteq> {Save_as_mainfile ?file True}"
    by (elim disjE exE conjE) (simp_all add: new_events_def)
  assume "r = Inr FINISHED"
  with shape have fin: "\<exists>u. r1 = Inr u"
    and w': "w' = report INFO
             (''Published Final: '' @ get_blend_filename props (version props) ''fin'')
             (w1\<lparr>files := insert ?file (files w1),
                 log := log w1 @ [Save_as_mainfile ?file True]\<rparr>)"
    by auto
  from fin D(3) have "os_path_exists w1 ?fin" by auto
  with w' D(1,2) show
    "filter is_save (new_events w w') = [Save_as_mainfile ?file True] \<and>
     ?file \<in> files w' \<and> os_path_exists w' ?fin"
    by (auto simp: new_events_def os_path_exists_def)
qed

text \<open>
  Claim C9. Every run of the Finalizer, whatever its outcome, returns the properties it
  was given (root path, asset type, asset name, version and \<open>is_generated\<close>) and leaves
  the location of the open document where it was. The only save it ever requests is a
  copy (\<^verbatim>\<open>copy=True\<close>) at the \<open>fin\<close> file name of the current version inside that
  version's \<open>fin/projects\<close> folder; a run that finishes has requested it exactly once,
  the file is there and the folder exists.
\<close>

theorem finalize_frame:
  "finalize_execute props w = (r, props', w') \<longrightarrow>
     props' = props \<and>
     filepath w' = filepath w \<and>
     set (filter is_save (new_events w w'))
       \<subseteq> {Save_as_mainfile (fin_file w props (version props)) True} \<and>
     (r = Inr FINISHED \<longrightarrow>
        filter is_save (new_events w w')
          = [Save_as_mainfile (fin_file w props (version props)) True] \<and>
        fin_file w props (version props) \<in> files w' \<and>
        os_path_exists w' (fin_projects w props (version props))) \<and>
     fin_file w props (version props) =
       os_path_join (fin_projects w props (version props))
         [get_blend_filename props (version props) ''fin'']"
proof
  assume run: "finalize_execute props w = (r, props', w')"
  note eff = finalize_effect [OF run]
  show "props' = props \<and>
     filepath w' = filepath w \<and>
     set (filter is_save (new_events w w'))
       \<subseteq> {Save_as_mainfile (fin_file w props (version props)) True} \<and>
     (r = Inr FINISHED \<longrightarrow>
        filter is_save (new_events w w')
          = [Save_as_mainfile (fin_file w props (version props)) True] \<and>
        fin_file w props (version props) \<in> files w' \<and>
        os_path_exists w' (fin_projects w props (version props))) \<and>
     fin_file w props (version props) =
       os_path_join (fin_projects w props (version props))
         [get_blend_filename props (version props) ''fin'']"
    using eff(1) eff(2) eff(3) eff(4) by (simp add: fin_file_def)
qed

theorem finalize_frame_witness:
  "\<exists>w'. finalize_execute my_asset quiet_world = (Inr FINISHED, my_asset, w') \<and>
     filepath w' = ''/home/u/scene.blend'' \<and>
     filter is_save (new_events quiet_world w')
       = [Save_as_mainfile
            ''/home/u/prp_My_Asset/v01/fin/projects/prp_My_Asset_v01_fin.blend'' True] \<and>
     ''/home/u/prp_My_Asset/v01/fin/projects/prp_My_Asset_v01_fin.blend'' \<in> files w' \<and>
     os_path_exists w' ''/home/u/prp_My_Asset/v01/fin/projects''"
proof -
  have "fst (finalize_execute my_asset quiet_world) = Inr FINISHED" by code_simp
  then obtain p' w' where run: "finalize_execute my_asset quiet_world = (Inr FINISHED, p', w')"
    by (cases "finalize_execute my_asset quiet_world") auto
  have paths:
    "fin_file quiet_world my_asset (version my_asset)
       = ''/home/u/prp_My_Asset/v01/fin/projects/prp_My_Asset_v01_fin.blend''"
    "fin_projects quiet_world my_asset (version my_asset)
       = ''/home/u/prp_My_Asset/v01/fin/projects''"
    "filepath quiet_world = ''/home/u/scene.blend''"
    by (simp_all add: fin_file_def fin_projects_def path_eval my_asset_def quiet_world_def)
  from finalize_frame [of my_asset quiet_world "Inr FINISHED" p' w'] run
  have "p' = my_asset \<and>
     filepath w' = filepath quiet_world \<and>
     filter is_save (new_events quiet_world w')
          = [Save_as_mainfile (fin_file quiet_world my_asset (version my_asset)) True] \<and>
     fin_file quiet_world my_asset (version my_asset) \<in> files w' \<and>
     os_path_exists w' (fin_projects quiet_world my_asset (version my_asset))"
    by blast
  then have "p' = my_asset \<and>
     filepath w' = ''/home/u/scene.blend'' \<and>
     filter is_save (new_events quiet_world w')
       = [Save_as_mainfile
            ''/home/u/prp_My_Asset/v01/fin/projects/prp_My_Asset_v01_fin.blend'' True] \<and>
     ''/home/u/prp_My_Asset/v01/fin/projects/prp_My_Asset_v01_fin.blend'' \<in> files w' \<and>
     os_path_exists w' ''/home/u/prp_My_Asset/v01/fin/projects''"
    by (simp only: paths)
  with run show ?thesis by blast
qed

section \<open>Operators and the \<open>is_generated\<close> flag\<close>

lemma sep_prefix_unique:
  assumes "c \<notin> set a" "c \<notin> set b" "take (length a + 1) (b @ c # rest) = a @ [c]"
  shows "a = b"
proof -
  define y where "y = drop (length a + 1) (b @ c # rest)"
  have "take (length a + 1) (b @ c # rest) @ y = b @ c # rest"
    unfolding y_def by (rule append_take_drop_id)
  then have eq: "a @ c # y = b @ c # rest"
    by (simp only: assms(3) append_Cons append_Nil append_assoc)
  have "takeWhile (\<lambda>x. x \<noteq> c) (b @ c # rest) = b"
    using assms(2) by (auto simp: takeWhile_tail)
  moreover have "takeWhile (\<lambda>x. x \<noteq> c) (a @ c # y) = a"
    using assms(1) by (auto simp: takeWhile_tail)
  ultimately show ?thesis
    by (simp only: eq)
qed

lemma relocate_sibling:
  assumes "a \<noteq> b" "CHR ''/'' \<notin> set a" "CHR ''/'' \<notin> set b"
  shows "relocate (q @ a) dst (q @ b @ CHR ''/'' # rest) = q @ b @ CHR ''/'' # rest"
proof -
  have ne: "q @ b @ CHR ''/'' # rest \<noteq> q @ a"
  proof
    assume "q @ b @ CHR ''/'' # rest = q @ a"
    then have "a = b @ CHR ''/'' # rest" by simp
    with assms(2) show False by simp
  qed
  have np: "take (length (q @ a) + 1) (q @ b @ CHR ''/'' # rest) \<noteq> (q @ a) @ ''/''"
  proof
    assume "take (length (q @ a) + 1) (q @ b @ CHR ''/'' # rest) = (q @ a) @ ''/''"
    then have "take (length a + 1) (b @ CHR ''/'' # rest) = a @ ''/''" by simp
    from sep_prefix_unique [OF assms(2) assms(3) this] assms(1) show False by simp
  qed
  from ne np show ?thesis by (simp add: relocate_def)
qed

lemma format_02d_nonempty: "format_02d n \<noteq> []"
  using dec_nonempty by (simp add: format_02d_def)

lemma version_folder_shape:
  "get_version_folder w props v =
     (get_project_root w props
        @ (if last (get_project_root w props) = CHR ''/'' then [] else ''/'') @ ''v'')
     @ format_02d v"
  using project_root_nonempty [of w props]
  by (simp add: version_folder_join2 join2_rel)

lemma version_folder_end:
  "get_version_folder w props v \<noteq> [] \<and> last (get_version_folder w props v) \<noteq> CHR ''/''"
proof -
  have "last (format_02d v) \<in> set (format_02d v)"
    using format_02d_nonempty by simp
  with format_02d_no_sep [of v] have "last (format_02d v) \<noteq> CHR ''/''" by metis
  then show ?thesis
    using format_02d_nonempty [of v] by (simp add: version_folder_shape)
qed

lemma projects_shape:
  "wip_projects w props v = get_version_folder w props v @ ''/wip/projects''"
  "fin_projects w props v = get_version_folder w props v @ ''/fin/projects''"
  using version_folder_end [of w props v]
  by (simp_all add: wip_projects_def fin_projects_def os_path_join_def join2_def)

lemma blend_filename_head: "take 1 (get_blend_filename props v state) \<noteq> ''/''"
  by (cases "asset_type props") (simp_all add: get_blend_filename_def enum_identifier_cases)

lemma wip_file_shape:
  "wip_file w props v =
     get_version_folder w props v @ ''/wip/projects/'' @ get_blend_filename props v ''wip''"
  using blend_filename_head [of props v "''wip''"]
  by (simp add: wip_file_def projects_shape os_path_join_def join2_rel)

lemma relocate_next_version:
  "relocate (get_version_folder w props v) dst (wip_projects w props (v + 1))
     = wip_projects w props (v + 1)"
  "relocate (get_version_folder w props v) dst (fin_projects w props (v + 1))
     = fin_projects w props (v + 1)"
  "relocate (get_version_folder w props v) dst (wip_file w props (v + 1))
     = wip_file w props (v + 1)"
proof -
  have ne: "format_02d v \<noteq> format_02d (v + 1)"
    using format_02d_inj [of v "v + 1"] by auto
  note r = relocate_sibling [OF ne format_02d_no_sep format_02d_no_sep]
  let ?q = "get_project_root w props
        @ (if last (get_project_root w props) = CHR ''/'' then [] else ''/'') @ ''v''"
  from r [of ?q dst "''wip/projects''"]
  show "relocate (get_version_folder w props v) dst (wip_projects w props (v + 1))
     = wip_projects w props (v + 1)"
    by (simp add: projects_shape version_folder_shape)
  from r [of ?q dst "''fin/projects''"]
  show "relocate (get_version_folder w props v) dst (fin_projects w props (v + 1))
     = fin_projects w props (v + 1)"
    by (simp add: projects_shape version_folder_shape)
  from r [of ?q dst "''wip/projects/'' @ get_blend_filename props (v + 1) ''wip''"]
  show "relocate (get_version_folder w props v) dst (wip_file w props (v + 1))
     = wip_file w props (v + 1)"
    by (simp add: wip_file_shape version_folder_shape)
qed

lemma archive_filepath:
  "filepath (move_old_version_to_archive v old arch w) = filepath w"
proof (cases "os_path_exists w old")
  case False
  then show ?thesis by (simp add: archive_old_missing)
next
  case True
  show ?thesis
  proof (cases "os_path_exists w (os_path_join arch [''v'' @ format_02d v])")
    case taken: True
    with True show ?thesis by (simp add: archive_dest_taken)
  next
    case free: False
    show ?thesis
    proof (cases "move_error w old (os_path_join arch [''v'' @ format_02d v])")
      case None
      with True free show ?thesis by (simp add: archive_moved)
    next
      case (Some m)
      with True free show ?thesis by (simp add: archive_move_raises)
    qed
  qed
qed

lemma archive_keeps:
  assumes "relocate old (os_path_join arch [''v'' @ format_02d v]) p = p"
  shows "p \<in> dirs w \<Longrightarrow> p \<in> dirs (move_old_version_to_archive v old arch w)"
    and "p \<in> files w \<Longrightarrow> p \<in> files (move_old_version_to_archive v old arch w)"
proof -
  let ?dest = "os_path_join arch [''v'' @ format_02d v]"
  let ?R = "move_old_version_to_archive v old arch w"
  have shape:
    "(dirs ?R = dirs w \<and> files ?R = files w) \<or>
     (dirs ?R = relocate old ?dest ` dirs w \<and> files ?R = relocate old ?dest ` files w)"
  proof (cases "\<not> os_path_exists w old \<or> os_path_exists w ?dest
                 \<or> move_error w old ?dest \<noteq> None")
    case True
    from archive_not_moved_frame(1,2) [OF True] show ?thesis by simp
  next
    case False
    then have "?R =
        report INFO (''v'' @ format_02d v @ '' Archived.'')
          (w\<lparr>dirs := relocate old ?dest ` dirs w, files := relocate old ?dest ` files w,
             log := log w @ [Move old ?dest]\<rparr>)"
      by (simp add: archive_moved)
    then show ?thesis by simp
  qed
  {
    assume p: "p \<in> dirs w"
    then have "relocate old ?dest p \<in> relocate old ?dest ` dirs w" by (rule imageI)
    then have "p \<in> relocate old ?dest ` dirs w" by (simp only: assms)
    with p shape show "p \<in> dirs ?R" by blast
  }
  {
    assume p: "p \<in> files w"
    then have "relocate old ?dest p \<in> relocate old ?dest ` files w" by (rule imageI)
    then have "p \<in> relocate old ?dest ` files w" by (simp only: assms)
    with p shape show "p \<in> files ?R" by blast
  }
qed

lemma paths_ignore_is_generated:
  "get_version_folder w (props\<lparr>is_generated := b\<rparr>) v = get_version_folder w props v"
  "get_arch_folder w (props\<lparr>is_generated := b\<rparr>) = get_arch_folder w props"
  "get_blend_filename (props\<lparr>is_generated := b\<rparr>) v state = get_blend_filename props v state"
  "wip_projects w (props\<lparr>is_generated := b\<rparr>) v = wip_projects w props v"
  "fin_projects w (props\<lparr>is_generated := b\<rparr>) v = fin_projects w props v"
  "wip_file w (props\<lparr>is_generated := b\<rparr>) v = wip_file w props v"
  "fin_file w (props\<lparr>is_generated := b\<rparr>) v = fin_file w props v"
  by (simp_all add: get_version_folder_def get_arch_folder_def get_project_root_def
        get_blend_filename_def folder_name_def safe_name_def wip_projects_def
        fin_projects_def wip_file_def fin_file_def)

lemma finalize_ignores_is_generated:
  "finalize_execute (props\<lparr>is_generated := b\<rparr>) w =
     (case finalize_execute props w of (r, p, w') \<Rightarrow> (r, p\<lparr>is_generated := b\<rparr>, w'))"
  by (simp add: finalize_execute_steps paths_ignore_is_generated
        split: prod.splits sum.splits)

lemma steps_ignore_is_generated:
  "steps_before_archive wipe_scene (props\<lparr>is_generated := b\<rparr>) w
     = steps_before_archive wipe_scene props w"
  by (simp add: steps_before_archive_def paths_ignore_is_generated)

lemma iterate_ignores_is_generated:
  "archive_and_iterate_execute wipe_scene (props\<lparr>is_generated := b\<rparr>) w =
     (case archive_and_iterate_execute wipe_scene props w of
        (r, p, w') \<Rightarrow> (r, p\<lparr>is_generated := b\<rparr>, w'))"
  by (simp add: archive_and_iterate_execute_phases steps_ignore_is_generated
        paths_ignore_is_generated set_version_def split: prod.splits sum.splits)

lemma finalize_without_faults:
  assumes "\<forall>d \<in> set (path_chain (fin_projects w props (version props))).
             d \<notin> files w \<and> mkdir_error w d = None"
    and "ops_error w (Save_as_mainfile (fin_file w props (version props)) True) = None"
  shows "\<exists>w'. finalize_execute props w = (Inr FINISHED, props, w') \<and>
           fin_projects w props (version props) \<in> dirs w' \<and>
           fin_file w props (version props) \<in> files w' \<and>
           filter is_save (new_events w w')
             = [Save_as_mainfile (fin_file w props (version props)) True]"
proof -
  let ?fin = "fin_projects w props (version props)"
  let ?file = "fin_file w props (version props)"
  let ?ensure = "if \<not> os_path_exists w ?fin then os_makedirs ?fin w else (Inr (), w)"
  have nofile: "?fin \<notin> files w"
    using assms(1) path_chain_self [of ?fin] by blast
  have "\<exists>w1. ?ensure = (Inr (), w1)"
  proof (cases "os_path_exists w ?fin")
    case True
    then show ?thesis by simp
  next
    case False
    with os_makedirs_free [OF assms(1)] show ?thesis by simp
  qed
  then obtain w1 where e: "?ensure = (Inr (), w1)" ..
  from ensure_fin_folder_effect [OF e] obtain D evs where
    D: "w1 = w\<lparr>dirs := D, log := log w @ evs\<rparr>" "os_path_exists w1 ?fin"
    by auto
  from D nofile have indir: "?fin \<in> D" by (simp add: os_path_exists_def)
  from D(1) assms(2) have ok: "ops_error w1 (Save_as_mainfile ?file True) = None" by simp
  let ?w' = "report INFO
               (''Published Final: '' @ get_blend_filename props (version props) ''fin'')
               (w1\<lparr>files := insert ?file (files w1), filepath := filepath w1,
                   log := log w1 @ [Save_as_mainfile ?file True]\<rparr>)"
  from e ok have run: "finalize_execute props w = (Inr FINISHED, props, ?w')"
    by (simp add: finalize_execute_steps save_as_mainfile_cases)
  from finalize_effect(4) [OF run] have
    "filter is_save (new_events w ?w') = [Save_as_mainfile ?file True]"
    "?file \<in> files ?w'"
    by simp_all
  moreover from D(1) indir have "?fin \<in> dirs ?w'" by simp
  ultimately show ?thesis using run by blast
qed

lemma wipe_without_faults:
  assumes "wipe_scene \<longrightarrow> ops_error w Select_all = None \<and> ops_error w Object_delete = None
             \<and> ops_error w Orphans_purge = None"
  shows "\<exists>w2. wipe_scene_step wipe_scene w = (Inr (), w2)"
  using assms
  by (cases wipe_scene)
     (simp_all add: wipe_scene_step_def and_then_def bpy_ops_object_select_all_def
        bpy_ops_object_delete_def bpy_ops_outliner_orphans_purge_def Let_def)

lemma iterate_without_faults:
  assumes range: "1 \<le> version props" "version props < 2 ^ 31 - 1"
    and free: "\<forall>d \<in> set (path_chain (wip_projects w props (version props + 1)))
                    \<union> set (path_chain (fin_projects w props (version props + 1))).
                 d \<notin> files w \<and> mkdir_error w d = None"
    and wipe: "wipe_scene \<longrightarrow> ops_error w Select_all = None \<and> ops_error w Object_delete = None
                 \<and> ops_error w Orphans_purge = None"
    and save: "ops_error w (Save_as_mainfile (wip_file w props (version props + 1)) False) = None"
  shows "\<exists>w'. archive_and_iterate_execute wipe_scene props w =
                (Inr FINISHED, props\<lparr>version := version props + 1\<rparr>, w') \<and>
           wip_projects w props (version props + 1) \<in> dirs w' \<and>
           fin_projects w props (version props + 1) \<in> dirs w' \<and>
           wip_file w props (version props + 1) \<in> files w' \<and>
           filepath w' = wip_file w props (version props + 1) \<and>
           filter is_save (new_events w w')
             = [Save_as_mainfile (wip_file w props (version props + 1)) False]"
proof -
  let ?nw = "wip_projects w props (version props + 1)"
  let ?nf = "fin_projects w props (version props + 1)"
  let ?file = "wip_file w props (version props + 1)"
  let ?old = "get_version_folder w props (version props)"
  let ?arch = "get_arch_folder w props"
  \<comment> \<open>step 1\<close>
  from free have "\<forall>d \<in> set (path_chain ?nw). d \<notin> files w \<and> mkdir_error w d = None"
    by blast
  from os_makedirs_free [OF this] obtain wa where a: "os_makedirs ?nw w = (Inr (), wa)" ..
  from os_makedirs_effect [OF a] obtain Da where
    Da: "wa = w\<lparr>dirs := Da, log := log w @ [Makedirs ?nw]\<rparr>"
    by auto
  from free Da have "\<forall>d \<in> set (path_chain ?nf). d \<notin> files wa \<and> mkdir_error wa d = None"
    by simp
  from os_makedirs_free [OF this] obtain w1 where b: "os_makedirs ?nf wa = (Inr (), w1)" ..
  from a b have s1: "setup_next_version_folders ?nw ?nf w = (Inr (), w1)"
    by (simp add: setup_next_version_folders_def and_then_def)
  from setup_next_version_folders_effect [OF s1] obtain D evs where
    D: "w1 = w\<lparr>dirs := D, log := log w @ evs\<rparr>"
      "D = dirs w \<union> set (path_chain ?nw) \<union> set (path_chain ?nf)"
    by auto
  have in1: "?nw \<in> D" "?nf \<in> D"
    using D(2) path_chain_self [of ?nw] path_chain_self [of ?nf] by simp_all
  \<comment> \<open>step 2\<close>
  from wipe D(1) have "wipe_scene \<longrightarrow> ops_error w1 Select_all = None
      \<and> ops_error w1 Object_delete = None \<and> ops_error w1 Orphans_purge = None"
    by simp
  from wipe_without_faults [OF this] obtain w2 where s2: "wipe_scene_step wipe_scene w1 = (Inr (), w2)" ..
  from wipe_scene_step_effect [OF s2] obtain obs sel evs2 where
    w2: "w2 = w1\<lparr>objects := obs, selected := sel, log := log w1 @ evs2\<rparr>"
    by auto
  \<comment> \<open>step 3\<close>
  let ?w3 = "w2\<lparr>files := insert ?file (files w2), filepath := ?file,
                log := log w2 @ [Save_as_mainfile ?file False]\<rparr>"
  from save D(1) w2 have "ops_error w2 (Save_as_mainfile ?file False) = None" by simp
  then have s3: "bpy_ops_wm_save_as_mainfile ?file False w2 = (Inr (), ?w3)"
    by (simp add: save_as_mainfile_cases)
  from s1 s2 s3 have "steps_before_archive wipe_scene props w = (Inr (), ?w3)"
    by (simp add: steps_before_archive_def and_then_def)
  from iterate_past_save [OF this range]
  have run: "archive_and_iterate_execute wipe_scene props w =
               (Inr FINISHED, props\<lparr>version := version props + 1\<rparr>,
                move_old_version_to_archive (version props) ?old ?arch ?w3)"
    (is "_ = (_, _, ?w')") .
  \<comment> \<open>steps 4 and 5 leave the new version where it is\<close>
  from D(1) w2 in1 have in3: "?nw \<in> dirs ?w3" "?nf \<in> dirs ?w3"
    by simp_all
  have file3: "?file \<in> files ?w3" by simp
  have "?nw \<in> dirs ?w'"
    by (rule archive_keeps(1) [OF relocate_next_version(1) in3(1)])
  moreover have "?nf \<in> dirs ?w'"
    by (rule archive_keeps(1) [OF relocate_next_version(2) in3(2)])
  moreover have "?file \<in> files ?w'"
    by (rule archive_keeps(2) [OF relocate_next_version(3) file3])
  moreover have "filepath ?w' = ?file"
    by (simp add: archive_filepath)
  moreover from iterate_save_attempted [OF s1 s2 run]
  have "filter is_save (new_events w ?w') = [Save_as_mainfile ?file False]" .
  ultimately show ?thesis using run by blast
qed

text \<open>
  Claim C10. Neither the Finalizer nor the Version Iterator reads \<open>is_generated\<close>: a
  run on a configuration with the flag set to any value is the run on the original
  configuration, with the same result, the same world and the same properties but for
  the flag. They test nothing else before acting either. So with \<open>is_generated\<close>
  false and no failure of the file system or the host, the Finalizer finishes, has
  created the current version's \<open>fin/projects\<close> folder and has saved the copy there;
  and the Version Iterator finishes, has created the next version's two folders, has
  saved the next version's \<open>wip\<close> file there, which is now the open document, and has
  advanced the version.
\<close>

theorem operators_ignore_is_generated:
  "finalize_execute (props\<lparr>is_generated := b\<rparr>) w =
     (case finalize_execute props w of (r, p, w') \<Rightarrow> (r, p\<lparr>is_generated := b\<rparr>, w')) \<and>
   archive_and_iterate_execute wipe_scene (props\<lparr>is_generated := b\<rparr>) w =
     (case archive_and_iterate_execute wipe_scene props w of
        (r, p, w') \<Rightarrow> (r, p\<lparr>is_generated := b\<rparr>, w')) \<and>
   (\<not> is_generated props \<and>
    (\<forall>d \<in> set (path_chain (fin_projects w props (version props))).
       d \<notin> files w \<and> mkdir_error w d = None) \<and>
    ops_error w (Save_as_mainfile (fin_file w props (version props)) True) = None \<longrightarrow>
      (\<exists>w'. finalize_execute props w = (Inr FINISHED, props, w') \<and>
         fin_projects w props (version props) \<in> dirs w' \<and>
         fin_file w props (version props) \<in> files w' \<and>
         filter is_save (new_events w w')
           = [Save_as_mainfile (fin_file w props (version props)) True])) \<and>
   (\<not> is_generated props \<and> 1 \<le> version props \<and> version props < 2 ^ 31 - 1 \<and>
    (\<forall>d \<in> set (path_chain (wip_projects w props (version props + 1)))
           \<union> set (path_chain (fin_projects w props (version props + 1))).
       d \<notin> files w \<and> mkdir_error w d = None) \<and>
    (wipe_scene \<longrightarrow> ops_error w Select_all = None \<and> ops_error w Object_delete = None
       \<and> ops_error w Orphans_purge = None) \<and>
    ops_error w (Save_as_mainfile (wip_file w props (version props + 1)) False) = None \<longrightarrow>
      (\<exists>w'. archive_and_iterate_execute wipe_scene props w =
               (Inr FINISHED, props\<lparr>version := version props + 1\<rparr>, w') \<and>
         wip_projects w props (version props + 1) \<in> dirs w' \<and>
         fin_projects w props (version props + 1) \<in> dirs w' \<and>
         wip_file w props (version props + 1) \<in> files w' \<and>
         filepath w' = wip_file w props (version props + 1) \<and>
         filter is_save (new_events w w')
           = [Save_as_mainfile (wip_file w props (version props + 1)) False]))"
proof (intro conjI impI)
  show "finalize_execute (props\<lparr>is_generated := b\<rparr>) w =
     (case finalize_execute props w of (r, p, w') \<Rightarrow> (r, p\<lparr>is_generated := b\<rparr>, w'))"
    by (rule finalize_ignores_is_generated)
  show "archive_and_iterate_execute wipe_scene (props\<lparr>is_generated := b\<rparr>) w =
     (case archive_and_iterate_execute wipe_scene props w of
        (r, p, w') \<Rightarrow> (r, p\<lparr>is_generated := b\<rparr>, w'))"
    by (rule iterate_ignores_is_generated)
next
  assume h: "\<not> is_generated props \<and>
    (\<forall>d \<in> set (path_chain (fin_projects w props (version props))).
       d \<notin> files w \<and> mkdir_error w d = None) \<and>
    ops_error w (Save_as_mainfile (fin_file w props (version props)) True) = None"
  show "\<exists>w'. finalize_execute props w = (Inr FINISHED, props, w') \<and>
         fin_projects w props (version props) \<in> dirs w' \<and>
         fin_file w props (version props) \<in> files w' \<and>
         filter is_save (new_events w w')
           = [Save_as_mainfile (fin_file w props (version props)) True]"
    by (rule finalize_without_faults
          [OF conjunct1 [OF conjunct2 [OF h]] conjunct2 [OF conjunct2 [OF h]]])
next
  assume h: "\<not> is_generated props \<and> 1 \<le> version props \<and> version props < 2 ^ 31 - 1 \<and>
    (\<forall>d \<in> set (path_chain (wip_projects w props (version props + 1)))
           \<union> set (path_chain (fin_projects w props (version props + 1))).
       d \<notin> files w \<and> mkdir_error w d = None) \<and>
    (wipe_scene \<longrightarrow> ops_error w Select_all = None \<and> ops_error w Object_delete = None
       \<and> ops_error w Orphans_purge = None) \<and>
    ops_error w (Save_as_mainfile (wip_file w props (version props + 1)) False) = None"
  then have h1: "1 \<le> version props" and h2: "version props < 2 ^ 31 - 1"
    and h3: "\<forall>d \<in> set (path_chain (wip_projects w props (version props + 1)))
           \<union> set (path_chain (fin_projects w props (version props + 1))).
       d \<notin> files w \<and> mkdir_error w d = None"
    and h4: "wipe_scene \<longrightarrow> ops_error w Select_all = None \<and> ops_error w Object_delete = None
       \<and> ops_error w Orphans_purge = None"
    and h5: "ops_error w (Save_as_mainfile (wip_file w props (version props + 1)) False) = None"
    by blast+
  show "\<exists>w'. archive_and_iterate_execute wipe_scene props w =
               (Inr FINISHED, props\<lparr>version := version props + 1\<rparr>, w') \<and>
         wip_projects w props (version props + 1) \<in> dirs w' \<and>
         fin_projects w props (version props + 1) \<in> dirs w' \<and>
         wip_file w props (version props + 1) \<in> files w' \<and>
         filepath w' = wip_file w props (version props + 1) \<and>
         filter is_save (new_events w w')
           = [Save_as_mainfile (wip_file w props (version props + 1)) False]"
    by (rule iterate_without_faults [OF h1 h2 h3 h4 h5])
qed

theorem operators_ignore_is_generated_witness:
  "\<not> is_generated my_asset \<and>
   (\<exists>w'. finalize_execute my_asset quiet_world = (Inr FINISHED, my_asset, w') \<and>
      ''/home/u/prp_My_Asset/v01/fin/projects'' \<in> dirs w' \<and>
      ''/home/u/prp_My_Asset/v01/fin/projects/prp_My_Asset_v01_fin.blend'' \<in> files w') \<and>
   (\<exists>w'. archive_and_iterate_execute True my_asset quiet_world =
            (Inr FINISHED, my_asset\<lparr>version := 2\<rparr>, w') \<and>
      ''/home/u/prp_My_Asset/v02/wip/projects'' \<in> dirs w' \<and>
      ''/home/u/prp_My_Asset/v02/fin/projects'' \<in> dirs w' \<and>
      ''/home/u/prp_My_Asset/v02/wip/projects/prp_My_Asset_v02_wip.blend'' \<in> files w' \<and>
      filepath w' = ''/home/u/prp_My_Asset/v02/wip/projects/prp_My_Asset_v02_wip.blend'')"
proof (intro conjI)
  show ng: "\<not> is_generated my_asset" by (simp add: my_asset_def)
  have range: "1 \<le> version my_asset" "version my_asset < 2 ^ 31 - 1"
    by (simp_all add: my_asset_def)
  have paths:
    "fin_projects quiet_world my_asset (version my_asset)
       = ''/home/u/prp_My_Asset/v01/fin/projects''"
    "fin_file quiet_world my_asset (version my_asset)
       = ''/home/u/prp_My_Asset/v01/fin/projects/prp_My_Asset_v01_fin.blend''"
    "wip_projects quiet_world my_asset (version my_asset + 1)
       = ''/home/u/prp_My_Asset/v02/wip/projects''"
    "fin_projects quiet_world my_asset (version my_asset + 1)
       = ''/home/u/prp_My_Asset/v02/fin/projects''"
    "wip_file quiet_world my_asset (version my_asset + 1)
       = ''/home/u/prp_My_Asset/v02/wip/projects/prp_My_Asset_v02_wip.blend''"
    "my_asset\<lparr>version := version my_asset + 1\<rparr> = my_asset\<lparr>version := 2\<rparr>"
    by (simp_all add: fin_projects_def fin_file_def wip_projects_def wip_file_def path_eval
          my_asset_def)
  have free1: "\<forall>d \<in> set (path_chain (fin_projects quiet_world my_asset (version my_asset))).
                 d \<notin> files quiet_world \<and> mkdir_error quiet_world d = None"
    by code_simp
  have free2: "\<forall>d \<in> set (path_chain (wip_projects quiet_world my_asset (version my_asset + 1)))
                    \<union> set (path_chain (fin_projects quiet_world my_asset (version my_asset + 1))).
                 d \<notin> files quiet_world \<and> mkdir_error quiet_world d = None"
    by code_simp
  have ops: "ops_error quiet_world e = None" for e
    by (simp add: quiet_world_def)
  from operators_ignore_is_generated
         [where props = my_asset and w = quiet_world, THEN conjunct2, THEN conjunct2,
          THEN conjunct1] ng free1 ops
  have "\<exists>w'. finalize_execute my_asset quiet_world = (Inr FINISHED, my_asset, w') \<and>
         fin_projects quiet_world my_asset (version my_asset) \<in> dirs w' \<and>
         fin_file quiet_world my_asset (version my_asset) \<in> files w' \<and>
         filter is_save (new_events quiet_world w')
           = [Save_as_mainfile (fin_file quiet_world my_asset (version my_asset)) True]"
    by blast
  then show "\<exists>w'. finalize_execute my_asset quiet_world = (Inr FINISHED, my_asset, w') \<and>
      ''/home/u/prp_My_Asset/v01/fin/projects'' \<in> dirs w' \<and>
      ''/home/u/prp_My_Asset/v01/fin/projects/prp_My_Asset_v01_fin.blend'' \<in> files w'"
    unfolding paths by blast
  from operators_ignore_is_generated
         [where props = my_asset and w = quiet_world and wipe_scene = True,
          THEN conjunct2, THEN conjunct2, THEN conjunct2] ng range free2 ops
  have "\<exists>w'. archive_and_iterate_execute True my_asset quiet_world =
               (Inr FINISHED, my_asset\<lparr>version := version my_asset + 1\<rparr>, w') \<and>
         wip_projects quiet_world my_asset (version my_asset + 1) \<in> dirs w' \<and>
         fin_projects quiet_world my_asset (version my_asset + 1) \<in> dirs w' \<and>
         wip_file quiet_world my_asset (version my_asset + 1) \<in> files w' \<and>
         filepath w' = wip_file quiet_world my_asset (version my_asset + 1) \<and>
         filter is_save (new_events quiet_world w')
           = [Save_as_mainfile (wip_file quiet_world my_asset (version my_asset + 1)) False]"
    by blast
  then show "\<exists>w'. archive_and_iterate_execute True my_asset quiet_world =
            (Inr FINISHED, my_asset\<lparr>version := 2\<rparr>, w') \<and>
      ''/home/u/prp_My_Asset/v02/wip/projects'' \<in> dirs w' \<and>
      ''/home/u/prp_My_Asset/v02/fin/projects'' \<in> dirs w' \<and>
      ''/home/u/prp_My_Asset/v02/wip/projects/prp_My_Asset_v02_wip.blend'' \<in> files w' \<and>
      filepath w' = ''/home/u/prp_My_Asset/v02/wip/projects/prp_My_Asset_v02_wip.blend''"
    unfolding paths by blast
qed

end
